theory Spec2Isabelle
  imports Complex_Main "HOL-Library.Word" "HOL-Library.AList"
begin

section \<open>JavaScript values\<close>

text \<open>
  The record service (\<^verbatim>\<open>src/services/record.service.ts\<close>) receives untyped JSON
  values as custom-field submissions. A JavaScript string is a sequence of UTF-16 code
  units; string literals of the source are embedded with \<open>js\<close>.
\<close>

type_synonym jsstring = "16 word list"

definition js :: "string \<Rightarrow> jsstring" where
  "js s = map (\<lambda>c. word_of_nat (of_char c)) s"

text \<open>
  Numbers are IEEE doubles in the source. The model keeps the three non-finite values
  apart and takes a finite number as a rational (every finite double is one; the two
  zeros are identified). Built-in conversions on numbers are parameters, see
  \<open>js_builtins\<close>.
\<close>

datatype jsnum = NaN | PosInf | NegInf | Fin rat

datatype jsval =
    JUndefined
  | JNull
  | JBool bool
  | JNum jsnum
  | JStr jsstring
  | JArr "jsval list"
  | JObj "(jsstring \<times> jsval) list"

text \<open>Truthiness (ToBoolean).\<close>

fun truthy :: "jsval \<Rightarrow> bool" where
  "truthy JUndefined = False"
| "truthy JNull = False"
| "truthy (JBool b) = b"
| "truthy (JNum n) = (n \<noteq> NaN \<and> n \<noteq> Fin 0)"
| "truthy (JStr s) = (s \<noteq> [])"
| "truthy (JArr xs) = True"
| "truthy (JObj kvs) = True"

text \<open>\<^verbatim>\<open>typeof v === 'object'\<close>: true of null, arrays and plain objects.\<close>

fun typeof_object :: "jsval \<Rightarrow> bool" where
  "typeof_object JNull = True"
| "typeof_object (JArr xs) = True"
| "typeof_object (JObj kvs) = True"
| "typeof_object v = False"

text \<open>
  Property read \<^verbatim>\<open>v.k\<close> for the keys the service reads (\<^verbatim>\<open>value\<close>,
  \<^verbatim>\<open>fileName\<close>, \<^verbatim>\<open>filePath\<close>, ...): an own property of a plain object, undefined on
  arrays and primitives. Every read in the source is guarded against null and
  undefined, where JavaScript would throw.
\<close>

fun getProp :: "jsval \<Rightarrow> jsstring \<Rightarrow> jsval" where
  "getProp (JObj kvs) k = (case map_of kvs k of None \<Rightarrow> JUndefined | Some x \<Rightarrow> x)"
| "getProp v k = JUndefined"

text \<open>\<^verbatim>\<open>k in v\<close> for an object-typed, non-null \<open>v\<close>.\<close>

fun hasProp :: "jsstring \<Rightarrow> jsval \<Rightarrow> bool" where
  "hasProp k (JObj kvs) = (k \<in> fst ` set kvs)"
| "hasProp k v = False"

text \<open>\<^verbatim>\<open>Object.keys(v).length\<close> for a truthy \<open>v\<close>.\<close>

fun objectKeysLength :: "jsval \<Rightarrow> nat" where
  "objectKeysLength (JObj kvs) = length (remdups (map fst kvs))"
| "objectKeysLength (JArr xs) = length xs"
| "objectKeysLength (JStr s) = length s"
| "objectKeysLength v = 0"

text \<open>
  \<^verbatim>\<open>String.prototype.trim\<close>: strips WhiteSpace and LineTerminator code units
  (ECMAScript 12.2, 12.3) from both ends.
\<close>

definition isWhiteSpace :: "16 word \<Rightarrow> bool" where
  "isWhiteSpace c \<longleftrightarrow>
     c \<in> {0x9, 0xA, 0xB, 0xC, 0xD, 0x20, 0xA0, 0x1680, 0x2000, 0x2001, 0x2002, 0x2003,
          0x2004, 0x2005, 0x2006, 0x2007, 0x2008, 0x2009, 0x200A, 0x2028, 0x2029,
          0x202F, 0x205F, 0x3000, 0xFEFF}"

definition trim :: "jsstring \<Rightarrow> jsstring" where
  "trim s = rev (dropWhile isWhiteSpace (rev (dropWhile isWhiteSpace s)))"

text \<open>Decimal rendering of a non-negative integer, as a template literal prints it.\<close>

fun show_nat :: "nat \<Rightarrow> jsstring" where
  "show_nat n =
     (if n < 10 then [word_of_nat (48 + n)]
      else show_nat (n div 10) @ [word_of_nat (48 + n mod 10)])"

text \<open>
  Built-ins whose results the service only tests or passes on. They are pure functions
  of their argument within one process.
\<close>

record js_builtins =
  numberToString :: "jsnum \<Rightarrow> jsstring"
  parseFloat :: "jsstring \<Rightarrow> jsnum"
  toNumber :: "jsval \<Rightarrow> jsnum"
  dateGetTime :: "jsval \<Rightarrow> jsnum"
  dateToISOString :: "jsval \<Rightarrow> jsstring"

section \<open>Custom field validator\<close>

text \<open>\<^verbatim>\<open>new AppError(status, message)\<close>.\<close>

datatype AppError = AppError nat jsstring

text \<open>
  A field definition of the cabinet and a validated entry. Field ids are numbers
  (\<^verbatim>\<open>fieldId: number\<close>), so \<^verbatim>\<open>submittedFields[field.id]\<close> reads the submission's
  own property of that number. The validated mapping is the object built by the
  assignments \<^verbatim>\<open>validatedFields[field.id] = ...\<close>, kept in assignment order; JavaScript
  enumerates its keys, being integers, in ascending order.
\<close>

record CustomField =
  cf_id :: nat
  cf_name :: jsstring
  cf_type :: jsstring
  isMandatory :: bool
  characterLimit :: "nat option"

record CustomFieldValue =
  fieldId :: nat
  cfv_type :: jsstring
  cfv_value :: jsval

type_synonym submitted = "nat \<rightharpoonup> jsval"
type_synonym validated = "(nat \<times> CustomFieldValue) list"

text \<open>The template \<^verbatim>\<open>Field '${field.name}' ...\<close> of every validation error.\<close>

definition fieldError :: "CustomField \<Rightarrow> jsstring \<Rightarrow> AppError" where
  "fieldError field rest = AppError 400 (js ''Field '' @ 0x27 # cf_name field @ 0x27 # rest)"

definition exceedsLimit :: "CustomField \<Rightarrow> jsstring \<Rightarrow> bool" where
  "exceedsLimit field s =
     (case characterLimit field of None \<Rightarrow> False | Some n \<Rightarrow> n \<noteq> 0 \<and> length s > n)"

definition limitError :: "CustomField \<Rightarrow> AppError" where
  "limitError field =
     fieldError field (js '' exceeds character limit of '' @
       (case characterLimit field of None \<Rightarrow> js ''undefined'' | Some n \<Rightarrow> show_nat n))"

definition actualValueOf :: "jsval \<Rightarrow> jsval" where
  "actualValueOf v =
     (if typeof_object v \<and> v \<noteq> JNull
      then (if getProp v (js ''value'') \<noteq> JUndefined then getProp v (js ''value'') else v)
      else v)"

definition validateFieldValue :: "js_builtins \<Rightarrow> jsval \<Rightarrow> CustomField \<Rightarrow> AppError + jsval" where
  "validateFieldValue E v field =
    (if v = JUndefined \<or> v = JNull then Inr JNull
     else let actualValue = actualValueOf v in
      if cf_type field = js ''Text/Number with Special Symbols'' then
        (if actualValue = JNull \<or> actualValue = JUndefined \<or> actualValue = JStr [] then Inr JNull
         else let stringValue =
                (case actualValue of JNum n \<Rightarrow> JStr (numberToString E n) | _ \<Rightarrow> actualValue)
           in (case stringValue of
                 JStr s \<Rightarrow> if exceedsLimit field s then Inl (limitError field) else Inr (JStr s)
               | _ \<Rightarrow> Inl (fieldError field (js '' must be text, number or special symbols''))))
      else if cf_type field = js ''Text Only'' then
        (let textValue =
               (if typeof_object actualValue \<and> actualValue \<noteq> JNull \<and> hasProp (js ''value'') actualValue
                then getProp actualValue (js ''value'') else actualValue)
         in (case textValue of
               JStr s \<Rightarrow> if exceedsLimit field s then Inl (limitError field) else Inr (JStr s)
             | _ \<Rightarrow> Inl (fieldError field (js '' must be text''))))
      else if cf_type field = js ''Number Only'' then
        (if actualValue = JNull \<or> actualValue = JUndefined \<or> actualValue = JStr [] then Inr JNull
         else (case actualValue of
                 JNum n \<Rightarrow> if n = NaN then Inl (fieldError field (js '' must be a valid number''))
                           else Inr actualValue
               | JStr s \<Rightarrow> (let num = parseFloat E (trim s)
                            in if num = NaN then Inl (fieldError field (js '' must be a valid number''))
                               else Inr (JNum num))
               | _ \<Rightarrow> Inl (fieldError field (js '' must be a valid number''))))
      else if cf_type field = js ''Currency'' then
        (let amount = toNumber E actualValue
         in if amount = NaN then Inl (fieldError field (js '' must be a valid currency amount''))
            else Inr (JNum amount))
      else if cf_type field = js ''Date'' \<or> cf_type field = js ''Time''
              \<or> cf_type field = js ''Time and Date'' then
        (if (case actualValue of JStr s \<Rightarrow> True | _ \<Rightarrow> False) \<and> dateGetTime E actualValue \<noteq> NaN
         then Inr actualValue
         else if dateGetTime E actualValue = NaN
              then Inl (fieldError field (js '' must be a valid date/time''))
              else Inr (JStr (dateToISOString E actualValue)))
      else if cf_type field = js ''Yes/No'' then
        (case actualValue of
           JBool b \<Rightarrow> Inr actualValue
         | _ \<Rightarrow> Inl (fieldError field (js '' must be a boolean'')))
      else if cf_type field = js ''Tags/Labels'' then
        (case actualValue of
           JArr xs \<Rightarrow> Inr actualValue
         | _ \<Rightarrow> Inl (fieldError field (js '' must be an array of tags'')))
      else if cf_type field = js ''Attachment'' then
        (if \<not> truthy actualValue \<or> \<not> typeof_object actualValue
         then Inl (fieldError field (js '' must be a valid file upload''))
         else if \<not> truthy (getProp actualValue (js ''fileName''))
                 \<or> \<not> truthy (getProp actualValue (js ''filePath''))
              then Inl (fieldError field (js '' is missing required file information''))
              else Inr actualValue)
      else Inr actualValue)"

text \<open>\<^verbatim>\<open>submittedFields[field.id]\<close>: a missing key reads as undefined.\<close>

definition submittedField :: "submitted \<Rightarrow> nat \<Rightarrow> jsval" where
  "submittedField submittedFields k =
     (case submittedFields k of None \<Rightarrow> JUndefined | Some v \<Rightarrow> v)"

text \<open>The two presence tests of the mandatory check.\<close>

definition hasValidValue :: "jsval \<Rightarrow> bool" where
  "hasValidValue sf \<longleftrightarrow>
     truthy sf \<and>
     ((truthy (getProp sf (js ''value'')) \<and> objectKeysLength (getProp sf (js ''value'')) > 0)
      \<or> (typeof_object sf \<and> (truthy (getProp sf (js ''filePath'')) \<or> truthy (getProp sf (js ''fileName'')))))"

definition hasValue :: "jsval \<Rightarrow> bool" where
  "hasValue sf \<longleftrightarrow> sf \<noteq> JUndefined \<and> sf \<noteq> JNull \<and> sf \<noteq> JStr []"

definition mandatoryError :: "CustomField \<Rightarrow> AppError" where
  "mandatoryError field = fieldError field (js '' is mandatory'')"

text \<open>
  One iteration of the loop over \<^verbatim>\<open>cabinetFields\<close>: the mandatory check, then the
  store into \<^verbatim>\<open>validatedFields[field.id]\<close>. A throw ends the whole validation.
\<close>

definition validateField ::
  "js_builtins \<Rightarrow> submitted \<Rightarrow> CustomField \<Rightarrow> validated \<Rightarrow> AppError + validated" where
  "validateField E submittedFields field validatedFields =
    (let sf = submittedField submittedFields (cf_id field) in
     if isMandatory field \<and> cf_type field = js ''Attachment'' \<and> \<not> hasValidValue sf
       then Inl (mandatoryError field)
     else if isMandatory field \<and> cf_type field \<noteq> js ''Attachment'' \<and> \<not> hasValue sf
       then Inl (mandatoryError field)
     else if cf_type field = js ''Attachment'' then
       (if truthy sf
        then Inr (AList.update (cf_id field)
                    \<lparr>fieldId = cf_id field, cfv_type = cf_type field, cfv_value = sf\<rparr> validatedFields)
        else Inr validatedFields)
     else
       (if sf \<noteq> JUndefined
        then (case validateFieldValue E sf field of
                Inl e \<Rightarrow> Inl e
              | Inr v \<Rightarrow> Inr (AList.update (cf_id field)
                    \<lparr>fieldId = cf_id field, cfv_type = cf_type field, cfv_value = v\<rparr> validatedFields))
        else Inr validatedFields))"

fun validateLoop ::
  "js_builtins \<Rightarrow> submitted \<Rightarrow> CustomField list \<Rightarrow> validated \<Rightarrow> AppError + validated" where
  "validateLoop E submittedFields [] validatedFields = Inr validatedFields"
| "validateLoop E submittedFields (field # rest) validatedFields =
     (case validateField E submittedFields field validatedFields of
        Inl e \<Rightarrow> Inl e
      | Inr validatedFields' \<Rightarrow> validateLoop E submittedFields rest validatedFields')"

definition validateCustomFields ::
  "js_builtins \<Rightarrow> submitted \<Rightarrow> CustomField list \<Rightarrow> AppError + validated" where
  "validateCustomFields E submittedFields cabinetFields =
     validateLoop E submittedFields cabinetFields []"

section \<open>PDF content extractor\<close>

record MulterFile =
  originalname :: jsstring
  mimetype :: jsstring
  file_size :: nat
  buffer :: "8 word list"

record PdfExtractResult =
  extractedText :: jsstring
  extractedFields :: "(jsstring \<times> jsstring) list"
  pageCount :: nat

text \<open>
  The service's surroundings: the JavaScript built-ins, the body of the \<^verbatim>\<open>try\<close> block
  of \<^verbatim>\<open>extractPdfContent\<close> (temporary file, pdf.js-extract, line reconstruction and
  \<^verbatim>\<open>analyzeTextStructure\<close>; \<open>None\<close> when anything in it throws), and the write of an
  uploaded PDF below the upload directory (the path written, \<open>None\<close> when it throws).
\<close>

record io_env =
  builtins :: js_builtins
  tryExtract :: "MulterFile \<Rightarrow> PdfExtractResult option"
  writePdf :: "MulterFile \<Rightarrow> jsstring option"

definition extractPdfContent :: "io_env \<Rightarrow> MulterFile \<Rightarrow> AppError + PdfExtractResult" where
  "extractPdfContent X file =
     (case tryExtract X file of
        Some r \<Rightarrow> Inr r
      | None \<Rightarrow> Inl (AppError 500 (js ''Failed to process PDF file'')))"

text \<open>
  \<^verbatim>\<open>Math.round\<close> rounds to the nearest integer, halves upwards. The quotient of a
  byte count below \<open>2^53\<close> by 1024 is exact in double arithmetic, so the rational
  quotient is the double one.
\<close>

definition mathRound :: "rat \<Rightarrow> int" where
  "mathRound x = \<lfloor>x + 1 / 2\<rfloor>"

definition fallbackPdfData :: "MulterFile \<Rightarrow> PdfExtractResult" where
  "fallbackPdfData file =
     \<lparr>extractedText = js ''PDF text extraction failed'',
      extractedFields =
        [(js ''Document Name'', originalname file),
         (js ''File Size'', show_nat (nat (mathRound (of_nat (file_size file) / 1024))) @ js '' KB'')],
      pageCount = 1\<rparr>"

definition processPdfFile :: "io_env \<Rightarrow> MulterFile \<Rightarrow> AppError + PdfExtractResult" where
  "processPdfFile X file =
     (case extractPdfContent X file of
        Inr r \<Rightarrow> Inr r
      | Inl error \<Rightarrow> Inr (fallbackPdfData file))"

section \<open>Stored entities\<close>

type_synonym uuid = nat

datatype RecordStatus = DRAFT | PENDING | APPROVED | REJECTED | ARCHIVED

text \<open>
  File-descriptor columns hold JavaScript values: \<^verbatim>\<open>createRecord\<close> copies them from
  a submitted attachment object as they are, \<^verbatim>\<open>createNewVersion\<close> from its caller.
\<close>

record Record =
  r_id :: uuid
  r_title :: jsstring
  r_description :: jsval
  r_cabinetId :: uuid
  r_creatorId :: uuid
  r_status :: RecordStatus
  r_customFields :: validated
  r_tags :: "jsstring list"
  r_isTemplate :: bool
  r_isActive :: bool
  r_lastModifiedBy :: uuid
  r_version :: nat
  r_fileName :: jsval
  r_filePath :: jsval
  r_fileSize :: jsval
  r_fileType :: jsval
  r_fileHash :: jsval

record RecordVersion =
  rv_id :: uuid
  rv_recordId :: uuid
  rv_version :: nat
  rv_fileName :: jsval
  rv_fileSize :: jsval
  rv_fileType :: jsval
  rv_filePath :: jsval
  rv_fileHash :: jsval
  rv_uploadedBy :: uuid
  rv_note :: "jsstring option"

record RecordOtherVersion =
  ov_id :: uuid
  ov_originalRecordId :: uuid
  ov_title :: jsstring
  ov_description :: jsval
  ov_cabinetId :: uuid
  ov_creatorId :: uuid
  ov_customFields :: validated
  ov_status :: RecordStatus
  ov_tags :: "jsstring list"
  ov_isTemplate :: bool
  ov_isActive :: bool
  ov_lastModifiedBy :: uuid
  ov_version :: nat
  ov_fileName :: jsval
  ov_filePath :: jsval
  ov_fileSize :: jsval
  ov_fileType :: jsval
  ov_fileHash :: jsval

record Cabinet =
  c_id :: uuid
  c_customFields :: "CustomField list"
  c_approvers :: "uuid list option"
  c_createdById :: uuid

record CabinetMember =
  cm_cabinetId :: uuid
  cm_userId :: uuid
  cm_role :: jsstring

record RecordNoteComment =
  nc_recordId :: uuid
  nc_content :: jsstring
  nc_type :: jsstring
  nc_action :: "jsstring option"
  nc_createdBy :: uuid

record PdfFile =
  pf_recordId :: uuid
  pf_originalFileName :: jsstring
  pf_filePath :: jsstring
  pf_fileSize :: nat
  pf_fileHash :: jsstring
  pf_pageCount :: nat
  pf_extractedText :: jsstring
  pf_extractedMetadata :: "(jsstring \<times> jsstring) list"

text \<open>
  The database: one list of rows per table, and the supply of generated primary keys.
  A statement of the ORM that reaches the database completes; an operation that throws
  before its commit leaves the database as it was. Calls to the activity log and the
  notification service follow the commit and touch none of these tables; they are left
  out. Version numbers are integers without a bound.
\<close>

record db =
  records :: "Record list"
  recordVersions :: "RecordVersion list"
  recordOtherVersions :: "RecordOtherVersion list"
  cabinets :: "Cabinet list"
  users :: "uuid list"
  cabinetMembers :: "CabinetMember list"
  recordNoteComments :: "RecordNoteComment list"
  pdfFiles :: "PdfFile list"
  nextId :: uuid

definition findRecord :: "db \<Rightarrow> uuid \<Rightarrow> Record option" where
  "findRecord d recordId = find (\<lambda>r. r_id r = recordId) (records d)"

definition findCabinet :: "db \<Rightarrow> uuid \<Rightarrow> Cabinet option" where
  "findCabinet d cabinetId = find (\<lambda>c. c_id c = cabinetId) (cabinets d)"

text \<open>\<^verbatim>\<open>record.update({...})\<close>: rewrites the row with the record's primary key.\<close>

definition updateRecordRow :: "db \<Rightarrow> uuid \<Rightarrow> (Record \<Rightarrow> Record) \<Rightarrow> db" where
  "updateRecordRow d recordId f =
     d\<lparr>records := map (\<lambda>r. if r_id r = recordId then f r else r) (records d)\<rparr>"

text \<open>\<^verbatim>\<open>findOne({ order: [[col, 'DESC']] })\<close>: a row with the greatest value of the column.\<close>

fun findMaxBy :: "('a \<Rightarrow> nat) \<Rightarrow> 'a list \<Rightarrow> 'a option" where
  "findMaxBy col [] = None"
| "findMaxBy col (x # xs) =
     (case findMaxBy col xs of
        None \<Rightarrow> Some x
      | Some y \<Rightarrow> if col y > col x then Some y else Some x)"

definition versionsOf :: "db \<Rightarrow> uuid \<Rightarrow> RecordVersion list" where
  "versionsOf d recordId = filter (\<lambda>v. rv_recordId v = recordId) (recordVersions d)"


section \<open>Record lifecycle\<close>

record CreateRecordData =
  crd_title :: jsstring
  crd_cabinetId :: uuid
  crd_creatorId :: uuid
  crd_customFields :: submitted
  crd_status :: RecordStatus
  crd_isTemplate :: bool
  crd_isActive :: bool
  crd_tags :: "jsstring list"
  crd_pdfFile :: "MulterFile option"

text \<open>
  \<^verbatim>\<open>for (const fieldId in validatedFields)\<close> visits the keys that are array indices
  (integers below \<open>2^32 - 1\<close>) in ascending order, then the other keys in the order
  of their creation. The first Attachment entry with a truthy value gives the file
  information.
\<close>

definition forInOrder :: "validated \<Rightarrow> validated" where
  "forInOrder validatedFields =
     sort_key fst (filter (\<lambda>(k, field). k < 4294967295) validatedFields)
     @ filter (\<lambda>(k, field). \<not> k < 4294967295) validatedFields"

definition findFileInfo :: "validated \<Rightarrow> jsval option" where
  "findFileInfo validatedFields =
     map_option (\<lambda>(k, field). cfv_value field)
       (find (\<lambda>(k, field). cfv_type field = js ''Attachment'' \<and> truthy (cfv_value field))
          (forInOrder validatedFields))"

text \<open>The inner \<^verbatim>\<open>try\<close> of \<^verbatim>\<open>createRecord\<close>: extraction with fallback.\<close>

definition pdfDataOf :: "io_env \<Rightarrow> MulterFile \<Rightarrow> PdfExtractResult" where
  "pdfDataOf X file =
     (case extractPdfContent X file of Inr r \<Rightarrow> r | Inl pdfError \<Rightarrow> fallbackPdfData file)"

definition storePdfFile :: "io_env \<Rightarrow> db \<Rightarrow> Record \<Rightarrow> MulterFile \<Rightarrow> db" where
  "storePdfFile X d record file =
     (let pdfData = pdfDataOf X file in
      case writePdf X file of
        None \<Rightarrow> d
      | Some pdfFilePath \<Rightarrow>
          d\<lparr>pdfFiles := pdfFiles d @
             [\<lparr>pf_recordId = r_id record,
               pf_originalFileName = originalname file,
               pf_filePath = pdfFilePath,
               pf_fileSize = file_size file,
               pf_fileHash = js ''N/A'',
               pf_pageCount = pageCount pdfData,
               pf_extractedText = extractedText pdfData,
               pf_extractedMetadata = extractedFields pdfData\<rparr>]\<rparr>)"

definition createRecord :: "io_env \<Rightarrow> db \<Rightarrow> CreateRecordData \<Rightarrow> AppError + db \<times> Record" where
  "createRecord X d data =
    (if crd_title data = [] \<or> trim (crd_title data) = []
     then Inl (AppError 400 (js ''Record title is required''))
     else case findCabinet d (crd_cabinetId data) of
       None \<Rightarrow> Inl (AppError 400 (js ''Cabinet not found''))
     | Some cabinet \<Rightarrow>
        if crd_creatorId data \<notin> set (users d) then Inl (AppError 400 (js ''Creator not found''))
        else
       (case validateCustomFields (builtins X) (crd_customFields data) (c_customFields cabinet) of
          Inl e \<Rightarrow> Inl e
        | Inr validatedFields \<Rightarrow>
           (let fileInfo = findFileInfo validatedFields;
                column = (\<lambda>k. case fileInfo of None \<Rightarrow> JNull | Some info \<Rightarrow> getProp info k);
                record =
                  \<lparr>r_id = nextId d,
                   r_title = trim (crd_title data),
                   r_description = JNull,
                   r_cabinetId = crd_cabinetId data,
                   r_creatorId = crd_creatorId data,
                   r_status = crd_status data,
                   r_customFields = validatedFields,
                   r_tags = crd_tags data,
                   r_isTemplate = crd_isTemplate data,
                   r_isActive = crd_isActive data,
                   r_lastModifiedBy = crd_creatorId data,
                   r_version = 1,
                   r_fileName = column (js ''fileName''),
                   r_filePath = column (js ''filePath''),
                   r_fileSize = column (js ''fileSize''),
                   r_fileType = column (js ''fileType''),
                   r_fileHash = column (js ''fileHash'')\<rparr>;
                d1 = d\<lparr>records := records d @ [record], nextId := Suc (nextId d)\<rparr>;
                d2 = (case crd_pdfFile data of
                        None \<Rightarrow> d1
                      | Some file \<Rightarrow> storePdfFile X d1 record file)
            in Inr (d2, record))))"

section \<open>Versions and modifications\<close>

record VersionData =
  vd_fileName :: jsval
  vd_fileSize :: jsval
  vd_fileType :: jsval
  vd_filePath :: jsval
  vd_fileHash :: jsval
  vd_uploadedBy :: uuid
  vd_note :: "jsstring option"

definition createNewVersion :: "db \<Rightarrow> uuid \<Rightarrow> VersionData \<Rightarrow> AppError + db \<times> RecordVersion" where
  "createNewVersion d recordId versionData =
    (case findRecord d recordId of
       None \<Rightarrow> Inl (AppError 404 (js ''Record not found''))
     | Some record \<Rightarrow>
        (let latestVersion = findMaxBy rv_version (versionsOf d recordId);
             newVersionNumber = (case latestVersion of Some lv \<Rightarrow> rv_version lv + 1 | None \<Rightarrow> 1);
             version =
               \<lparr>rv_id = nextId d,
                rv_recordId = recordId,
                rv_version = newVersionNumber,
                rv_fileName = vd_fileName versionData,
                rv_fileSize = vd_fileSize versionData,
                rv_fileType = vd_fileType versionData,
                rv_filePath = vd_filePath versionData,
                rv_fileHash = vd_fileHash versionData,
                rv_uploadedBy = vd_uploadedBy versionData,
                rv_note = vd_note versionData\<rparr>;
             d1 = d\<lparr>recordVersions := recordVersions d @ [version], nextId := Suc (nextId d)\<rparr>;
             d2 = updateRecordRow d1 (r_id record)
                    (\<lambda>r. r\<lparr>r_filePath := vd_filePath versionData,
                            r_fileName := vd_fileName versionData,
                            r_fileSize := vd_fileSize versionData,
                            r_fileType := vd_fileType versionData,
                            r_fileHash := vd_fileHash versionData,
                            r_version := newVersionNumber,
                            r_lastModifiedBy := vd_uploadedBy versionData\<rparr>)
         in Inr (d2, version)))"

text \<open>Successive calls of \<^verbatim>\<open>createNewVersion\<close> on one record, collecting what each returns.\<close>

fun createNewVersions :: "db \<Rightarrow> uuid \<Rightarrow> VersionData list \<Rightarrow> AppError + db \<times> RecordVersion list" where
  "createNewVersions d recordId [] = Inr (d, [])"
| "createNewVersions d recordId (versionData # rest) =
     (case createNewVersion d recordId versionData of
        Inl e \<Rightarrow> Inl e
      | Inr (d1, version) \<Rightarrow>
         (case createNewVersions d1 recordId rest of
            Inl e \<Rightarrow> Inl e
          | Inr (d2, versions) \<Rightarrow> Inr (d2, version # versions)))"

definition deleteVersion :: "db \<Rightarrow> uuid \<Rightarrow> uuid \<Rightarrow> uuid \<Rightarrow> AppError + db" where
  "deleteVersion d recordId versionId userId =
    (case findRecord d recordId of
       None \<Rightarrow> Inl (AppError 404 (js ''Record not found''))
     | Some record \<Rightarrow>
    (case findCabinet d (r_cabinetId record) of
       None \<Rightarrow> Inl (AppError 404 (js ''Cabinet not found''))
     | Some cabinet \<Rightarrow>
        if r_creatorId record \<noteq> userId \<and> c_createdById cabinet \<noteq> userId
        then Inl (AppError 403 (js ''You do not have permission to delete this version''))
        else
    (case find (\<lambda>v. rv_id v = versionId \<and> rv_recordId v = recordId) (recordVersions d) of
       None \<Rightarrow> Inl (AppError 404 (js ''Version not found''))
     | Some version \<Rightarrow>
        (let versionsCount = length (versionsOf d recordId) in
         if versionsCount = 1
         then Inl (AppError 400 (js ''Cannot delete the only version of the record''))
         else
          (let d1 =
             (if rv_version version = r_version record
              then (case findMaxBy rv_version
                           (filter (\<lambda>v. rv_version v < rv_version version) (versionsOf d recordId)) of
                      Some previousVersion \<Rightarrow>
                        updateRecordRow d (r_id record)
                          (\<lambda>r. r\<lparr>r_filePath := rv_filePath previousVersion,
                                  r_fileName := rv_fileName previousVersion,
                                  r_fileSize := rv_fileSize previousVersion,
                                  r_fileType := rv_fileType previousVersion,
                                  r_fileHash := rv_fileHash previousVersion,
                                  r_version := rv_version previousVersion,
                                  r_lastModifiedBy := userId\<rparr>)
                    | None \<Rightarrow> d)
              else d)
           in Inr (d1\<lparr>recordVersions :=
                        filter (\<lambda>v. rv_id v \<noteq> rv_id version) (recordVersions d1)\<rparr>))))))"




text \<open>
  \<^verbatim>\<open>rejectRecord\<close>. The optional \<^verbatim>\<open>data\<close> (a partial record) is the row update it
  denotes; \<^verbatim>\<open>note\<close> only reaches the activity log and the notification.
\<close>

definition rejectRecord ::
  "db \<Rightarrow> uuid \<Rightarrow> uuid \<Rightarrow> jsstring option \<Rightarrow> jsstring option \<Rightarrow> (Record \<Rightarrow> Record)
     \<Rightarrow> AppError + db \<times> Record option" where
  "rejectRecord d recordId userId note comments data =
    (case findRecord d recordId of
       None \<Rightarrow> Inl (AppError 404 (js ''Record or cabinet not found''))
     | Some record \<Rightarrow>
    (case findCabinet d (r_cabinetId record) of
       None \<Rightarrow> Inl (AppError 404 (js ''Record or cabinet not found''))
     | Some included \<Rightarrow>
    (case findCabinet d (r_cabinetId record) of
       None \<Rightarrow> Inl (AppError 404 (js ''Cabinet not found''))
     | Some cabinet \<Rightarrow>
        (let isApprover = (case c_approvers cabinet of
                             None \<Rightarrow> False
                           | Some approvers \<Rightarrow> userId \<in> set approvers);
             cabinetMember = find (\<lambda>m. cm_cabinetId m = r_cabinetId record \<and> cm_userId m = userId
                                         \<and> cm_role m = js ''member_full'') (cabinetMembers d)
         in if \<not> isApprover \<and> cabinetMember = None
            then Inl (AppError 403 (js ''User is not authorized to reject this record''))
            else if r_status record \<noteq> PENDING
            then Inl (AppError 400 (js ''Only pending records can be rejected''))
            else
             (let d1 = updateRecordRow d (r_id record)
                         (\<lambda>r. (data r)\<lparr>r_status := REJECTED, r_lastModifiedBy := userId\<rparr>);
                  d2 = (case comments of
                          None \<Rightarrow> d1
                        | Some content \<Rightarrow>
                            if content = [] then d1
                            else d1\<lparr>recordNoteComments := recordNoteComments d1 @
                                   [\<lparr>nc_recordId = recordId,
                                     nc_content = content,
                                     nc_type = js ''comment'',
                                     nc_action = Some (js ''reject''),
                                     nc_createdBy = userId\<rparr>]\<rparr>)
              in Inr (d2, findRecord d2 recordId))))))"

section \<open>Auxiliary notions\<close>

text \<open>
  What the validation loop maintains about Attachment entries: each one holds the
  truthy value submitted under its key.
\<close>

definition att_inv :: "submitted \<Rightarrow> validated \<Rightarrow> bool" where
  "att_inv S acc \<longleftrightarrow> (\<forall>(k, v) \<in> set acc. cfv_type v = js ''Attachment'' \<longrightarrow>
      truthy (submittedField S k) \<and> cfv_value v = submittedField S k)"

text \<open>The greatest version number among a record's RecordVersion rows, 0 when it has none.\<close>

definition maxVersion :: "db \<Rightarrow> uuid \<Rightarrow> nat" where
  "maxVersion d recordId = Max (insert 0 (rv_version ` set (versionsOf d recordId)))"

section \<open>Example data\<close>

text \<open>
  A cabinet with a mandatory Text Only field (limit 5), an optional Yes/No field and an
  optional Attachment field; one approved record in it; users 7 (owner and creator),
  8 (approver) and 9.
\<close>

definition example_builtins :: js_builtins where
  "example_builtins =
     \<lparr>numberToString = (\<lambda>n. []), parseFloat = (\<lambda>s. NaN), toNumber = (\<lambda>v. NaN),
      dateGetTime = (\<lambda>v. NaN), dateToISOString = (\<lambda>v. [])\<rparr>"

definition example_schema :: "CustomField list" where
  "example_schema =
     [\<lparr>cf_id = 1, cf_name = js ''Code'', cf_type = js ''Text Only'', isMandatory = True,
        characterLimit = Some 5\<rparr>,
      \<lparr>cf_id = 2, cf_name = js ''Paid'', cf_type = js ''Yes/No'', isMandatory = False,
        characterLimit = None\<rparr>,
      \<lparr>cf_id = 3, cf_name = js ''Scan'', cf_type = js ''Attachment'', isMandatory = False,
        characterLimit = None\<rparr>]"

definition example_submitted :: submitted where
  "example_submitted = [1 \<mapsto> JStr (js ''Hello''), 9 \<mapsto> JStr (js ''dropped'')]"

definition example_record :: Record where
  "example_record =
     \<lparr>r_id = 1, r_title = js ''Invoice'', r_description = JNull, r_cabinetId = 10,
      r_creatorId = 7, r_status = APPROVED, r_customFields = [], r_tags = [],
      r_isTemplate = False, r_isActive = True, r_lastModifiedBy = 7, r_version = 1,
      r_fileName = JNull, r_filePath = JNull, r_fileSize = JNull, r_fileType = JNull,
      r_fileHash = JNull\<rparr>"

definition example_cabinet :: Cabinet where
  "example_cabinet =
     \<lparr>c_id = 10, c_customFields = example_schema, c_approvers = Some [8], c_createdById = 7\<rparr>"

definition example_db :: db where
  "example_db =
     \<lparr>records = [example_record], recordVersions = [], recordOtherVersions = [],
      cabinets = [example_cabinet], users = [7, 8, 9], cabinetMembers = [],
      recordNoteComments = [], pdfFiles = [], nextId = 100\<rparr>"

definition example_env :: io_env where
  "example_env = \<lparr>builtins = example_builtins, tryExtract = (\<lambda>file. None), writePdf = (\<lambda>file. None)\<rparr>"

definition example_versionData :: VersionData where
  "example_versionData =
     \<lparr>vd_fileName = JStr (js ''a.pdf''), vd_fileSize = JNum (Fin 2048),
      vd_fileType = JStr (js ''application/pdf''), vd_filePath = JStr (js ''uploads/a.pdf''),
      vd_fileHash = JStr (js ''N/A''), vd_uploadedBy = 7, vd_note = None\<rparr>"

definition example_file :: MulterFile where
  "example_file =
     \<lparr>originalname = js ''scan.pdf'', mimetype = js ''application/pdf'', file_size = 2048,
      buffer = [0x25, 0x50]\<rparr>"

definition example_create :: CreateRecordData where
  "example_create =
     \<lparr>crd_title = js ''  Foo  '', crd_cabinetId = 10, crd_creatorId = 7,
      crd_customFields = example_submitted, crd_status = DRAFT, crd_isTemplate = False,
      crd_isActive = True, crd_tags = [], crd_pdfFile = None\<rparr>"

definition example_created :: Record where
  "example_created =
     \<lparr>r_id = 100, r_title = js ''Foo'', r_description = JNull, r_cabinetId = 10,
      r_creatorId = 7, r_status = DRAFT,
      r_customFields =
        [(1, \<lparr>fieldId = 1, cfv_type = js ''Text Only'', cfv_value = JStr (js ''Hello'')\<rparr>)],
      r_tags = [], r_isTemplate = False, r_isActive = True, r_lastModifiedBy = 7, r_version = 1,
      r_fileName = JNull, r_filePath = JNull, r_fileSize = JNull, r_fileType = JNull,
      r_fileHash = JNull\<rparr>"

definition example_version :: "nat \<Rightarrow> RecordVersion" where
  "example_version n =
     \<lparr>rv_id = 200 + n, rv_recordId = 1, rv_version = n, rv_fileName = JStr (js ''a.pdf''),
      rv_fileSize = JNum (Fin 2048), rv_fileType = JStr (js ''application/pdf''),
      rv_filePath = JStr (js ''uploads/a.pdf''), rv_fileHash = JStr (js ''N/A''),
      rv_uploadedBy = 7, rv_note = None\<rparr>"



section \<open>Basic facts\<close>

declare show_nat.simps [simp del]

lemma js_eq_iff [simp]: "js a = js b \<longleftrightarrow> a = b"
proof -
  have inv: "char_of (unat (word_of_nat (of_char c) :: 16 word)) = c" for c :: char
  proof -
    have "(of_char c :: nat) < 65536"
      using nat_of_char_less_256 [of c] by linarith
    then have "unat (word_of_nat (of_char c) :: 16 word) = of_char c"
      by (simp add: unat_of_nat)
    then show ?thesis by simp
  qed
  have "inj (\<lambda>c::char. (word_of_nat (of_char c) :: 16 word))"
    by (rule inj_on_inverseI [where g = "\<lambda>w. char_of (unat w)"]) (simp add: inv)
  then have "inj js"
    unfolding js_def [abs_def] by (simp add: inj_mapI)
  then show ?thesis by (simp add: inj_eq)
qed

lemma js_Nil [simp]: "js [] = []"
  by (simp add: js_def)

lemma js_eq_Nil [simp]: "js s = [] \<longleftrightarrow> s = []"
  by (simp add: js_def)

lemma length_js [simp]: "length (js s) = length s"
  by (simp add: js_def)

lemma findMaxBy_None [simp]: "findMaxBy col xs = None \<longleftrightarrow> xs = []"
  by (induction xs) (auto split: option.splits)

lemma findMaxBy_Some:
  "findMaxBy col xs = Some m \<Longrightarrow> m \<in> set xs \<and> (\<forall>x\<in>set xs. col x \<le> col m)"
proof (induction xs arbitrary: m)
  case Nil
  then show ?case by simp
next
  case (Cons x xs)
  show ?case
  proof (cases "findMaxBy col xs")
    case None
    with Cons.prems show ?thesis by simp
  next
    case (Some y)
    with Cons.IH [of y] Cons.prems show ?thesis
      by (auto split: if_splits)
  qed
qed

lemma findMaxBy_Max:
  assumes "findMaxBy col xs = Some m"
  shows "col m = Max (col ` set xs)"
proof -
  from findMaxBy_Some [OF assms] have "m \<in> set xs" "\<forall>x\<in>set xs. col x \<le> col m" by auto
  then show ?thesis
    by (intro Max_eqI [symmetric]) auto
qed

lemma mathRound_kb: "nat (mathRound (of_nat n / 1024)) = (n + 512) div 1024"
proof -
  have "(of_nat n / 1024 + 1 / 2 :: rat) = of_int (int n + 512) / of_int 1024"
    by (simp add: field_simps)
  then have "mathRound (of_nat n / 1024) = (int n + 512) div 1024"
    unfolding mathRound_def by (simp only: floor_divide_of_int_eq)
  then show ?thesis
    by (simp add: nat_div_distrib nat_add_distrib)
qed

section \<open>Facts about the validator\<close>

lemma set_update_subset: "set (AList.update k v al) \<subseteq> insert (k, v) (set al)"
  by (induction al) auto

lemma validateField_Inr:
  assumes "validateField E S f acc = Inr acc'"
  shows "acc' = acc \<or>
         (\<exists>v. acc' = AList.update (cf_id f) v acc \<and> cfv_type v = cf_type f
              \<and> submittedField S (cf_id f) \<noteq> JUndefined
              \<and> (cf_type f = js ''Attachment'' \<longrightarrow>
                   truthy (submittedField S (cf_id f)) \<and> cfv_value v = submittedField S (cf_id f)))"
proof (cases "cf_type f = js ''Attachment''")
  case True
  with assms show ?thesis
    by (cases "truthy (submittedField S (cf_id f))")
       (auto simp: validateField_def Let_def split: if_splits)
next
  case False
  with assms show ?thesis
    by (cases "submittedField S (cf_id f) = JUndefined")
       (auto simp: validateField_def Let_def split: if_splits sum.splits)
qed

lemma validateField_keys:
  assumes "validateField E S f acc = Inr acc'"
  shows "fst ` set acc' \<subseteq> insert (cf_id f) (fst ` set acc)"
proof -
  from validateField_Inr [OF assms]
  consider "acc' = acc" | v where "acc' = AList.update (cf_id f) v acc" by blast
  then show ?thesis
  proof cases
    case 1
    then show ?thesis by auto
  next
    case 2
    then have "fst ` set acc' = {cf_id f} \<union> fst ` set acc"
      by (simp only: dom_update)
    then show ?thesis by auto
  qed
qed

lemma validateField_absent:
  assumes "validateField E S f acc = Inr acc'" "S k = None" "k \<notin> fst ` set acc"
  shows "k \<notin> fst ` set acc'"
proof (cases "cf_id f = k")
  case True
  with assms(2) have "submittedField S (cf_id f) = JUndefined"
    by (simp add: submittedField_def)
  with validateField_Inr [OF assms(1)] have "acc' = acc" by blast
  with assms(3) show ?thesis by simp
next
  case False
  with validateField_keys [OF assms(1)] assms(3) show ?thesis by auto
qed

lemma validateField_att:
  assumes "validateField E S f acc = Inr acc'" "att_inv S acc"
  shows "att_inv S acc'"
proof -
  from validateField_Inr [OF assms(1)] show ?thesis
  proof
    assume "acc' = acc"
    with assms(2) show ?thesis by simp
  next
    assume "\<exists>v. acc' = AList.update (cf_id f) v acc \<and> cfv_type v = cf_type f
              \<and> submittedField S (cf_id f) \<noteq> JUndefined
              \<and> (cf_type f = js ''Attachment'' \<longrightarrow>
                   truthy (submittedField S (cf_id f)) \<and> cfv_value v = submittedField S (cf_id f))"
    then obtain v where v: "acc' = AList.update (cf_id f) v acc" "cfv_type v = cf_type f"
      "cf_type f = js ''Attachment'' \<longrightarrow>
         truthy (submittedField S (cf_id f)) \<and> cfv_value v = submittedField S (cf_id f)"
      by blast
    show ?thesis
      unfolding att_inv_def
    proof (clarify)
      fix k w
      assume kw: "(k, w) \<in> set acc'" and ty: "cfv_type w = js ''Attachment''"
      from kw v(1) set_update_subset [of "cf_id f" v acc]
      have "(k, w) = (cf_id f, v) \<or> (k, w) \<in> set acc" by auto
      then show "truthy (submittedField S k) \<and> cfv_value w = submittedField S k"
      proof
        assume "(k, w) = (cf_id f, v)"
        with v(2,3) ty show ?thesis by simp
      next
        assume "(k, w) \<in> set acc"
        with assms(2) ty show ?thesis unfolding att_inv_def by blast
      qed
    qed
  qed
qed

lemma validateLoop_props:
  assumes "validateLoop E S C acc = Inr out"
  shows "fst ` set out \<subseteq> cf_id ` set C \<union> fst ` set acc"
    and "S k = None \<Longrightarrow> k \<notin> fst ` set acc \<Longrightarrow> k \<notin> fst ` set out"
    and "att_inv S acc \<Longrightarrow> att_inv S out"
  using assms
proof (induction C arbitrary: acc)
  case Nil
  { case 1 then show ?case by simp }
  { case 2 then show ?case by simp }
  { case 3 then show ?case by simp }
next
  case (Cons f fs)
  { case 1
    then obtain acc' where a: "validateField E S f acc = Inr acc'" and l: "validateLoop E S fs acc' = Inr out"
      by (auto split: sum.splits)
    from Cons.IH(1) [OF l] validateField_keys [OF a] show ?case by auto }
  { case 2
    then obtain acc' where a: "validateField E S f acc = Inr acc'" and l: "validateLoop E S fs acc' = Inr out"
      by (auto split: sum.splits)
    from validateField_absent [OF a 2(1) 2(2)] Cons.IH(2) [OF 2(1) _ l] show ?case by auto }
  { case 3
    then obtain acc' where a: "validateField E S f acc = Inr acc'" and l: "validateLoop E S fs acc' = Inr out"
      by (auto split: sum.splits)
    from validateField_att [OF a 3(1)] Cons.IH(3) [OF _ l] show ?case by auto }
qed

lemma fieldError_eq [simp]: "fieldError f a = fieldError f b \<longleftrightarrow> a = b"
  by (simp add: fieldError_def)

lemma mandatory_not_limit: "mandatoryError f \<noteq> limitError f"
  by (simp add: mandatoryError_def limitError_def js_def)

lemma validateFieldValue_not_mandatory:
  "validateFieldValue E v f \<noteq> Inl (mandatoryError f)"
proof -
  have m: "mandatoryError f \<noteq> fieldError f (js s)" if "s \<noteq> '' is mandatory''" for s
    using that by (simp add: mandatoryError_def)
  show ?thesis
    using mandatory_not_limit [of f]
    by (auto simp: validateFieldValue_def Let_def mandatoryError_def
             split: jsval.splits if_splits)
qed

lemma example_validation:
  "validateCustomFields example_builtins example_submitted example_schema =
     Inr [(1, \<lparr>fieldId = 1, cfv_type = js ''Text Only'', cfv_value = JStr (js ''Hello'')\<rparr>)]"
  by (simp add: validateCustomFields_def example_schema_def example_submitted_def
        validateField_def validateFieldValue_def submittedField_def hasValue_def
        actualValueOf_def exceedsLimit_def Let_def)

section \<open>Facts about the stored entities\<close>

lemma findRecord_Some:
  "findRecord d recordId = Some r \<Longrightarrow> r_id r = recordId \<and> r \<in> set (records d)"
  by (auto simp: findRecord_def find_Some_iff)

lemma find_map_update:
  assumes "\<And>r. r_id (f r) = r_id r"
  shows "find (\<lambda>r. r_id r = recordId) (map (\<lambda>r. if r_id r = recordId then f r else r) rs)
           = map_option f (find (\<lambda>r. r_id r = recordId) rs)"
  by (induction rs) (simp_all add: assms)

lemma findRecord_updateRecordRow:
  assumes "\<And>r. r_id (f r) = r_id r"
  shows "findRecord (updateRecordRow d recordId f) recordId = map_option f (findRecord d recordId)"
  unfolding findRecord_def updateRecordRow_def
  using find_map_update [of f recordId "records d", OF assms] by simp

lemma versionsOf_updateRecordRow [simp]:
  "versionsOf (updateRecordRow d recordId f) k = versionsOf d k"
  by (simp add: versionsOf_def updateRecordRow_def)

lemma findMaxBy_maxVersion:
  "(case findMaxBy rv_version (versionsOf d recordId) of Some lv \<Rightarrow> rv_version lv + 1 | None \<Rightarrow> 1)
     = Suc (maxVersion d recordId)"
proof (cases "findMaxBy rv_version (versionsOf d recordId)")
  case None
  then show ?thesis by (simp add: maxVersion_def)
next
  case (Some m)
  then have ne: "versionsOf d recordId \<noteq> []" by auto
  from findMaxBy_Max [OF Some] have "rv_version m = Max (rv_version ` set (versionsOf d recordId))" .
  moreover have "Max (insert 0 (rv_version ` set (versionsOf d recordId)))
                   = max 0 (Max (rv_version ` set (versionsOf d recordId)))"
    using ne by (intro Max_insert) auto
  ultimately show ?thesis using Some by (simp add: maxVersion_def)
qed

lemma maxVersion_cases:
  "maxVersion d recordId =
     (if versionsOf d recordId = [] then 0 else Max (rv_version ` set (versionsOf d recordId)))"
proof (cases "versionsOf d recordId = []")
  case True
  then show ?thesis by (simp add: maxVersion_def)
next
  case False
  then have "Max (insert 0 (rv_version ` set (versionsOf d recordId)))
                   = max 0 (Max (rv_version ` set (versionsOf d recordId)))"
    by (intro Max_insert) auto
  with False show ?thesis by (simp add: maxVersion_def)
qed

lemma createNewVersion_ok:
  assumes "findRecord d recordId = Some record"
  shows "\<exists>d' version.
           createNewVersion d recordId versionData = Inr (d', version)
         \<and> rv_version version = Suc (maxVersion d recordId)
         \<and> versionsOf d' recordId = versionsOf d recordId @ [version]
         \<and> findRecord d' recordId =
             Some (record\<lparr>r_filePath := vd_filePath versionData,
                          r_fileName := vd_fileName versionData,
                          r_fileSize := vd_fileSize versionData,
                          r_fileType := vd_fileType versionData,
                          r_fileHash := vd_fileHash versionData,
                          r_version := rv_version version,
                          r_lastModifiedBy := vd_uploadedBy versionData\<rparr>)
         \<and> rv_fileName version = vd_fileName versionData
         \<and> rv_filePath version = vd_filePath versionData
         \<and> rv_fileSize version = vd_fileSize versionData
         \<and> rv_fileType version = vd_fileType versionData
         \<and> rv_fileHash version = vd_fileHash versionData"
proof -
  from findRecord_Some [OF assms] have id: "r_id record = recordId" by simp
  define v where "v =
               \<lparr>rv_id = nextId d,
                rv_recordId = recordId,
                rv_version = Suc (maxVersion d recordId),
                rv_fileName = vd_fileName versionData,
                rv_fileSize = vd_fileSize versionData,
                rv_fileType = vd_fileType versionData,
                rv_filePath = vd_filePath versionData,
                rv_fileHash = vd_fileHash versionData,
                rv_uploadedBy = vd_uploadedBy versionData,
                rv_note = vd_note versionData\<rparr>"
  define d1 where "d1 = d\<lparr>recordVersions := recordVersions d @ [v], nextId := Suc (nextId d)\<rparr>"
  define f :: "Record \<Rightarrow> Record" where "f = (\<lambda>r. r\<lparr>r_filePath := vd_filePath versionData,
                            r_fileName := vd_fileName versionData,
                            r_fileSize := vd_fileSize versionData,
                            r_fileType := vd_fileType versionData,
                            r_fileHash := vd_fileHash versionData,
                            r_version := Suc (maxVersion d recordId),
                            r_lastModifiedBy := vd_uploadedBy versionData\<rparr>)"
  have c: "createNewVersion d recordId versionData = Inr (updateRecordRow d1 recordId f, v)"
    unfolding createNewVersion_def Let_def findMaxBy_maxVersion
    by (simp add: assms id v_def d1_def f_def)
  have vs: "versionsOf (updateRecordRow d1 recordId f) recordId = versionsOf d recordId @ [v]"
  proof -
    have "versionsOf d1 recordId = versionsOf d recordId @ [v]"
      by (simp add: d1_def versionsOf_def v_def)
    then show ?thesis by simp
  qed
  have "findRecord d1 recordId = Some record"
    using assms by (simp add: findRecord_def d1_def)
  moreover have "r_id (f r) = r_id r" for r by (simp add: f_def)
  ultimately have fr: "findRecord (updateRecordRow d1 recordId f) recordId = Some (f record)"
    using findRecord_updateRecordRow [of f d1 recordId] by simp
  show ?thesis
    unfolding c using vs fr by (simp add: v_def f_def)
qed

lemma maxVersion_snoc:
  assumes "versionsOf d' recordId = versionsOf d recordId @ [v]" "rv_version v = Suc (maxVersion d recordId)"
  shows "maxVersion d' recordId = Suc (maxVersion d recordId)"
proof -
  have "maxVersion d' recordId
        = Max (insert (rv_version v) (insert 0 (rv_version ` set (versionsOf d recordId))))"
    by (simp add: maxVersion_def assms(1) insert_commute)
  also have "\<dots> = max (rv_version v) (maxVersion d recordId)"
    unfolding maxVersion_def by (intro Max_insert) auto
  finally show ?thesis using assms(2) by simp
qed

lemma createNewVersions_ok:
  assumes "findRecord d recordId = Some record"
  shows "\<exists>d' versions.
           createNewVersions d recordId vds = Inr (d', versions)
         \<and> map rv_version versions =
             [Suc (maxVersion d recordId) ..< Suc (maxVersion d recordId) + length vds]
         \<and> versionsOf d' recordId = versionsOf d recordId @ versions
         \<and> (\<exists>r. findRecord d' recordId = Some r \<and>
                (vds \<noteq> [] \<longrightarrow> r_version r = maxVersion d recordId + length vds))"
  using assms
proof (induction vds arbitrary: d "record")
  case Nil
  then show ?case by simp
next
  case (Cons vd vds)
  from createNewVersion_ok [OF Cons.prems, of vd]
  obtain d1 v r1 where c: "createNewVersion d recordId vd = Inr (d1, v)"
    and ver: "rv_version v = Suc (maxVersion d recordId)"
    and vs: "versionsOf d1 recordId = versionsOf d recordId @ [v]"
    and fr: "findRecord d1 recordId = Some r1" and r1: "r_version r1 = rv_version v"
    by auto
  from maxVersion_snoc [OF vs ver] have mx: "maxVersion d1 recordId = Suc (maxVersion d recordId)" .
  from Cons.IH [OF fr]
  obtain d2 versions r2 where cs: "createNewVersions d1 recordId vds = Inr (d2, versions)"
    and nums: "map rv_version versions =
             [Suc (maxVersion d1 recordId) ..< Suc (maxVersion d1 recordId) + length vds]"
    and vs2: "versionsOf d2 recordId = versionsOf d1 recordId @ versions"
    and fr2: "findRecord d2 recordId = Some r2"
    and r2: "vds \<noteq> [] \<longrightarrow> r_version r2 = maxVersion d1 recordId + length vds"
    by blast
  have "createNewVersions d recordId (vd # vds) = Inr (d2, v # versions)"
    by (simp add: c cs)
  moreover have "map rv_version (v # versions) =
             [Suc (maxVersion d recordId) ..< Suc (maxVersion d recordId) + length (vd # vds)]"
  proof -
    let ?n = "maxVersion d recordId"
    have "[Suc ?n ..< Suc ?n + Suc (length vds)] = Suc ?n # [Suc (Suc ?n) ..< Suc ?n + Suc (length vds)]"
      by (rule upt_conv_Cons) simp
    then show ?thesis by (simp add: nums mx ver)
  qed
  moreover have "versionsOf d2 recordId = versionsOf d recordId @ (v # versions)"
    by (simp add: vs vs2)
  moreover have "r_version r2 = maxVersion d recordId + length (vd # vds)"
  proof (cases "vds = []")
    case True
    with cs fr fr2 r1 ver show ?thesis by simp
  next
    case False
    with r2 mx show ?thesis by simp
  qed
  ultimately show ?case using fr2 by blast
qed

lemma example_findRecord: "findRecord example_db 1 = Some example_record"
  by (simp add: findRecord_def example_db_def example_record_def)

lemma example_versionsOf: "versionsOf example_db 1 = []"
  by (simp add: versionsOf_def example_db_def)

lemma trim_all_whitespace:
  assumes "\<forall>c \<in> set s. isWhiteSpace c"
  shows "trim s = []"
proof -
  from assms have d: "dropWhile isWhiteSpace s = []" by simp
  show ?thesis unfolding trim_def d by simp
qed

lemma trim_decomposition:
  "\<exists>pre post. s = pre @ trim s @ post
      \<and> (\<forall>c \<in> set pre. isWhiteSpace c) \<and> (\<forall>c \<in> set post. isWhiteSpace c)"
proof -
  let ?t = "dropWhile isWhiteSpace s"
  have "s = takeWhile isWhiteSpace s @ ?t" by simp
  moreover have "rev (takeWhile isWhiteSpace (rev ?t) @ dropWhile isWhiteSpace (rev ?t)) = rev (rev ?t)"
    by (simp only: takeWhile_dropWhile_id)
  then have "rev (dropWhile isWhiteSpace (rev ?t)) @ rev (takeWhile isWhiteSpace (rev ?t)) = ?t"
    by (simp only: rev_append rev_rev_ident)
  then have "?t = trim s @ rev (takeWhile isWhiteSpace (rev ?t))"
    by (simp only: trim_def)
  ultimately have "s = takeWhile isWhiteSpace s @ trim s @ rev (takeWhile isWhiteSpace (rev ?t))"
    by simp
  moreover have "\<forall>c \<in> set (takeWhile isWhiteSpace s). isWhiteSpace c"
    by (auto dest: set_takeWhileD)
  moreover have "\<forall>c \<in> set (rev (takeWhile isWhiteSpace (rev ?t))). isWhiteSpace c"
    by (auto dest: set_takeWhileD)
  ultimately show ?thesis by blast
qed

lemma trim_ends:
  assumes "trim s \<noteq> []"
  shows "\<not> isWhiteSpace (hd (trim s)) \<and> \<not> isWhiteSpace (last (trim s))"
proof -
  let ?t = "dropWhile isWhiteSpace s"
  let ?u = "dropWhile isWhiteSpace (rev ?t)"
  from assms have u: "?u \<noteq> []" by (simp add: trim_def)
  have t: "?t \<noteq> []"
  proof
    assume a: "?t = []"
    have "?u = []" unfolding a by simp
    with u show False by contradiction
  qed
  have "last (trim s) = hd ?u" by (simp add: trim_def last_rev)
  moreover from u have "\<not> isWhiteSpace (hd ?u)" by (rule hd_dropWhile)
  moreover have "hd (trim s) = last ?u" by (simp add: trim_def hd_rev)
  moreover have "last ?u = last (rev ?t)"
  proof -
    from u have "last (takeWhile isWhiteSpace (rev ?t) @ ?u) = last ?u"
      by (rule last_appendR)
    then show ?thesis by (simp only: takeWhile_dropWhile_id)
  qed
  moreover have "last (rev ?t) = hd ?t" using t by (simp add: last_rev)
  moreover from t have "\<not> isWhiteSpace (hd ?t)" by (rule hd_dropWhile)
  ultimately show ?thesis by simp
qed

lemma trim_Foo: "trim (js ''  Foo  '') = js ''Foo''"
  by (simp add: trim_def isWhiteSpace_def js_def)

lemma createRecord_Inr:
  assumes "createRecord X d data = Inr (d', r)"
  shows "r_title r = trim (crd_title data) \<and> trim (crd_title data) \<noteq> []
       \<and> r_version r = 1 \<and> r_id r = nextId d
       \<and> records d' = records d @ [r]
       \<and> recordVersions d' = recordVersions d"
proof -
  have sp: "recordVersions (storePdfFile X d1 rec f0) = recordVersions d1
          \<and> records (storePdfFile X d1 rec f0) = records d1" for d1 rec f0
    by (simp add: storePdfFile_def Let_def split: option.splits)
  from assms show ?thesis
    unfolding createRecord_def Let_def
    by (auto split: if_splits option.splits sum.splits simp: sp)
qed

lemma example_findCabinet: "findCabinet example_db 10 = Some example_cabinet"
  by (simp add: findCabinet_def example_db_def example_cabinet_def)

lemma example_createRecord:
  "createRecord example_env example_db example_create =
     Inr (example_db\<lparr>records := [example_record, example_created], nextId := 101\<rparr>,
          example_created)"
proof -
  have c: "findCabinet example_db (crd_cabinetId example_create) = Some example_cabinet"
    using example_findCabinet by (simp add: example_create_def)
  have t: "crd_title example_create \<noteq> []" "trim (crd_title example_create) = js ''Foo''"
    using trim_Foo by (simp_all add: example_create_def)
  have u: "crd_creatorId example_create \<in> set (users example_db)"
    by (simp add: example_create_def example_db_def)
  have v: "validateCustomFields (builtins example_env) (crd_customFields example_create)
             (c_customFields example_cabinet)
           = Inr [(1, \<lparr>fieldId = 1, cfv_type = js ''Text Only'', cfv_value = JStr (js ''Hello'')\<rparr>)]"
    using example_validation by (simp add: example_env_def example_create_def example_cabinet_def)
  have fi: "findFileInfo
      [(1, \<lparr>fieldId = 1, cfv_type = js ''Text Only'', cfv_value = JStr (js ''Hello'')\<rparr>)] = None"
    by (simp add: findFileInfo_def forInOrder_def)
  have "createRecord example_env example_db example_create =
     Inr (example_db\<lparr>records := records example_db @
            [\<lparr>r_id = nextId example_db, r_title = js ''Foo'', r_description = JNull,
              r_cabinetId = crd_cabinetId example_create,
              r_creatorId = crd_creatorId example_create,
              r_status = crd_status example_create,
              r_customFields =
                [(1, \<lparr>fieldId = 1, cfv_type = js ''Text Only'', cfv_value = JStr (js ''Hello'')\<rparr>)],
              r_tags = crd_tags example_create,
              r_isTemplate = crd_isTemplate example_create,
              r_isActive = crd_isActive example_create,
              r_lastModifiedBy = crd_creatorId example_create,
              r_version = 1,
              r_fileName = JNull, r_filePath = JNull, r_fileSize = JNull, r_fileType = JNull,
              r_fileHash = JNull\<rparr>], nextId := Suc (nextId example_db)\<rparr>,
          \<lparr>r_id = nextId example_db, r_title = js ''Foo'', r_description = JNull,
              r_cabinetId = crd_cabinetId example_create,
              r_creatorId = crd_creatorId example_create,
              r_status = crd_status example_create,
              r_customFields =
                [(1, \<lparr>fieldId = 1, cfv_type = js ''Text Only'', cfv_value = JStr (js ''Hello'')\<rparr>)],
              r_tags = crd_tags example_create,
              r_isTemplate = crd_isTemplate example_create,
              r_isActive = crd_isActive example_create,
              r_lastModifiedBy = crd_creatorId example_create,
              r_version = 1,
              r_fileName = JNull, r_filePath = JNull, r_fileSize = JNull, r_fileType = JNull,
              r_fileHash = JNull\<rparr>)"
    unfolding createRecord_def
    by (simp only: c t u v fi Let_def option.case sum.case if_False if_True simp_thms not_True_eq_False)
       (simp add: example_create_def)
  then show ?thesis
    by (simp add: example_create_def example_created_def example_db_def)
qed

lemma rejectRecord_found:
  assumes "findRecord d recordId = Some record"
    and "findCabinet d (r_cabinetId record) = Some cabinet"
  shows "rejectRecord d recordId userId note comments data =
     (if \<not> (case c_approvers cabinet of None \<Rightarrow> False | Some approvers \<Rightarrow> userId \<in> set approvers)
         \<and> find (\<lambda>m. cm_cabinetId m = r_cabinetId record \<and> cm_userId m = userId
                       \<and> cm_role m = js ''member_full'') (cabinetMembers d) = None
      then Inl (AppError 403 (js ''User is not authorized to reject this record''))
      else if r_status record \<noteq> PENDING
      then Inl (AppError 400 (js ''Only pending records can be rejected''))
      else
       (let d1 = updateRecordRow d (r_id record)
                   (\<lambda>r. (data r)\<lparr>r_status := REJECTED, r_lastModifiedBy := userId\<rparr>);
            d2 = (case comments of
                    None \<Rightarrow> d1
                  | Some content \<Rightarrow>
                      if content = [] then d1
                      else d1\<lparr>recordNoteComments := recordNoteComments d1 @
                             [\<lparr>nc_recordId = recordId,
                               nc_content = content,
                               nc_type = js ''comment'',
                               nc_action = Some (js ''reject''),
                               nc_createdBy = userId\<rparr>]\<rparr>)
        in Inr (d2, findRecord d2 recordId)))"
  unfolding rejectRecord_def
  by (simp only: assms option.case Let_def)

lemma recordVersions_updateRecordRow [simp]:
  "recordVersions (updateRecordRow d recordId f) = recordVersions d"
  by (simp add: updateRecordRow_def)

lemma deleteVersion_Inr:
  assumes "deleteVersion d recordId versionId userId = Inr d2"
  shows "\<exists>version. version \<in> set (versionsOf d recordId) \<and> rv_id version = versionId
           \<and> length (versionsOf d recordId) \<noteq> 1
           \<and> recordVersions d2 = filter (\<lambda>v. rv_id v \<noteq> versionId) (recordVersions d)"
proof -
  from assms obtain version where
      f: "find (\<lambda>v. rv_id v = versionId \<and> rv_recordId v = recordId) (recordVersions d) = Some version"
    and n: "length (versionsOf d recordId) \<noteq> 1"
    and r: "recordVersions d2 = filter (\<lambda>v. rv_id v \<noteq> rv_id version) (recordVersions d)"
    unfolding deleteVersion_def Let_def
    by (auto split: option.splits if_splits)
  from f have v: "version \<in> set (recordVersions d)" "rv_id version = versionId"
    "rv_recordId version = recordId"
    by (auto simp: find_Some_iff)
  then have "version \<in> set (versionsOf d recordId)" by (simp add: versionsOf_def)
  with v n r show ?thesis by auto
qed

lemma length_filter_distinct_key:
  assumes "distinct (map g xs)" "x \<in> set xs"
  shows "length (filter (\<lambda>y. g y \<noteq> g x) xs) = length xs - 1"
  using assms
proof (induction xs)
  case Nil
  then show ?case by simp
next
  case (Cons y ys)
  show ?case
  proof (cases "y = x")
    case True
    from Cons.prems(1) have "g y \<notin> g ` set ys" by simp
    with True have "\<forall>z \<in> set ys. g z \<noteq> g x" by (metis imageI)
    then have "filter (\<lambda>z. g z \<noteq> g x) ys = ys" by (simp add: filter_id_conv)
    with True show ?thesis by simp
  next
    case False
    with Cons.prems have x: "x \<in> set ys" and d: "distinct (map g ys)" and ne: "g y \<noteq> g x"
      by auto
    from Cons.IH [OF d x] x ne show ?thesis
      by (cases ys) auto
  qed
qed

lemma versionsOf_filter:
  assumes "recordVersions d2 = filter P (recordVersions d)"
  shows "versionsOf d2 recordId = filter P (versionsOf d recordId)"
proof -
  have "filter (\<lambda>v. rv_recordId v = recordId) (filter P (recordVersions d))
          = filter P (filter (\<lambda>v. rv_recordId v = recordId) (recordVersions d))"
    by (simp add: conj_commute)
  with assms show ?thesis by (simp only: versionsOf_def)
qed

lemma deleteVersion_leaves_one:
  assumes "distinct (map rv_id (recordVersions d))"
    and "deleteVersion d recordId versionId userId = Inr d2"
  shows "length (versionsOf d2 recordId) = length (versionsOf d recordId) - 1
       \<and> versionsOf d2 recordId \<noteq> []"
proof -
  from deleteVersion_Inr [OF assms(2)] obtain version where
      v: "version \<in> set (versionsOf d recordId)" "rv_id version = versionId"
    and n: "length (versionsOf d recordId) \<noteq> 1"
    and r: "recordVersions d2 = filter (\<lambda>v. rv_id v \<noteq> versionId) (recordVersions d)"
    by blast
  from assms(1) have dist: "distinct (map rv_id (versionsOf d recordId))"
    unfolding versionsOf_def by (rule distinct_map_filter)
  from versionsOf_filter [OF r]
  have "versionsOf d2 recordId = filter (\<lambda>y. rv_id y \<noteq> rv_id version) (versionsOf d recordId)"
    by (simp only: v(2))
  with length_filter_distinct_key [of rv_id "versionsOf d recordId" version, OF dist v(1)]
  have len: "length (versionsOf d2 recordId) = length (versionsOf d recordId) - 1" by simp
  from v(1) have "length (versionsOf d recordId) \<noteq> 0" by auto
  with n len have "length (versionsOf d2 recordId) \<noteq> 0" by arith
  then have "versionsOf d2 recordId \<noteq> []" by (simp only: length_0_conv not_False_eq_True)
  with len show ?thesis by blast
qed

lemma deleteVersion_only_version:
  assumes "length (versionsOf d recordId) = 1"
  shows "\<exists>e. deleteVersion d recordId versionId userId = Inl e"
proof (cases "deleteVersion d recordId versionId userId")
  case (Inl e)
  then show ?thesis by simp
next
  case (Inr d2)
  from deleteVersion_Inr [OF Inr] assms show ?thesis by simp
qed

lemma deleteVersion_only_version_error:
  assumes "length (versionsOf d recordId) = 1"
    and "findRecord d recordId = Some rec0"
    and "findCabinet d (r_cabinetId rec0) = Some cabinet"
    and "r_creatorId rec0 = userId \<or> c_createdById cabinet = userId"
    and "find (\<lambda>v. rv_id v = versionId \<and> rv_recordId v = recordId) (recordVersions d) = Some version"
  shows "deleteVersion d recordId versionId userId
           = Inl (AppError 400 (js ''Cannot delete the only version of the record''))"
  unfolding deleteVersion_def Let_def
  using assms(4) by (simp add: assms(1,2,3,5))

lemma example_deleteVersion_one:
  "deleteVersion (example_db\<lparr>recordVersions := [example_version 1]\<rparr>) 1 201 7
     = Inl (AppError 400 (js ''Cannot delete the only version of the record''))"
  by (simp add: deleteVersion_def findRecord_def findCabinet_def versionsOf_def Let_def
        example_db_def example_record_def example_cabinet_def example_version_def)

lemma example_deleteVersion_two:
  "deleteVersion (example_db\<lparr>recordVersions := [example_version 1, example_version 2]\<rparr>) 1 202 7
     = Inr (example_db\<lparr>recordVersions := [example_version 1]\<rparr>)"
  by (simp add: deleteVersion_def findRecord_def findCabinet_def versionsOf_def Let_def
        example_db_def example_record_def example_cabinet_def example_version_def)





lemma createNewVersions_columns:
  assumes "findRecord d recordId = Some record"
  shows "\<exists>d' versions r.
           createNewVersions d recordId vds = Inr (d', versions)
         \<and> findRecord d' recordId = Some r
         \<and> map rv_fileName versions = map vd_fileName vds
         \<and> map rv_filePath versions = map vd_filePath vds
         \<and> map rv_fileSize versions = map vd_fileSize vds
         \<and> map rv_fileType versions = map vd_fileType vds
         \<and> map rv_fileHash versions = map vd_fileHash vds
         \<and> (vds \<noteq> [] \<longrightarrow>
               r_fileName r = vd_fileName (last vds)
             \<and> r_filePath r = vd_filePath (last vds)
             \<and> r_fileSize r = vd_fileSize (last vds)
             \<and> r_fileType r = vd_fileType (last vds)
             \<and> r_fileHash r = vd_fileHash (last vds)
             \<and> r_lastModifiedBy r = vd_uploadedBy (last vds))"
  using assms
proof (induction vds arbitrary: d "record")
  case Nil
  then show ?case by simp
next
  case (Cons vd vds)
  from createNewVersion_ok [OF Cons.prems, of vd]
  obtain d1 v r1 where c: "createNewVersion d recordId vd = Inr (d1, v)"
    and fr: "findRecord d1 recordId = Some r1"
    and r1: "r1 = record\<lparr>r_filePath := vd_filePath vd,
                          r_fileName := vd_fileName vd,
                          r_fileSize := vd_fileSize vd,
                          r_fileType := vd_fileType vd,
                          r_fileHash := vd_fileHash vd,
                          r_version := rv_version v,
                          r_lastModifiedBy := vd_uploadedBy vd\<rparr>"
    and cols: "rv_fileName v = vd_fileName vd" "rv_filePath v = vd_filePath vd"
      "rv_fileSize v = vd_fileSize vd" "rv_fileType v = vd_fileType vd"
      "rv_fileHash v = vd_fileHash vd"
    by auto
  from Cons.IH [OF fr]
  obtain d2 versions r2 where cs: "createNewVersions d1 recordId vds = Inr (d2, versions)"
    and fr2: "findRecord d2 recordId = Some r2"
    and maps: "map rv_fileName versions = map vd_fileName vds"
      "map rv_filePath versions = map vd_filePath vds"
      "map rv_fileSize versions = map vd_fileSize vds"
      "map rv_fileType versions = map vd_fileType vds"
      "map rv_fileHash versions = map vd_fileHash vds"
    and lst: "vds \<noteq> [] \<longrightarrow>
               r_fileName r2 = vd_fileName (last vds)
             \<and> r_filePath r2 = vd_filePath (last vds)
             \<and> r_fileSize r2 = vd_fileSize (last vds)
             \<and> r_fileType r2 = vd_fileType (last vds)
             \<and> r_fileHash r2 = vd_fileHash (last vds)
             \<and> r_lastModifiedBy r2 = vd_uploadedBy (last vds)"
    by blast
  have call: "createNewVersions d recordId (vd # vds) = Inr (d2, v # versions)"
    by (simp add: c cs)
  have fin: "r_fileName r2 = vd_fileName (last (vd # vds))
             \<and> r_filePath r2 = vd_filePath (last (vd # vds))
             \<and> r_fileSize r2 = vd_fileSize (last (vd # vds))
             \<and> r_fileType r2 = vd_fileType (last (vd # vds))
             \<and> r_fileHash r2 = vd_fileHash (last (vd # vds))
             \<and> r_lastModifiedBy r2 = vd_uploadedBy (last (vd # vds))"
  proof (cases "vds = []")
    case True
    with cs fr fr2 have "r2 = r1" by simp
    with True r1 show ?thesis by simp
  next
    case False
    with lst show ?thesis by simp
  qed
  from call fr2 maps cols fin show ?case by simp
qed





section \<open>Claims\<close>

text \<open>
  C1. \<^verbatim>\<open>createNewVersion\<close> on an existing record numbers the new RecordVersion one
  above the greatest version the record has, or 1 when it has none, appends it with the
  file descriptor of \<^verbatim>\<open>versionData\<close>, and overwrites the Record's five
  file-descriptor columns with those of \<^verbatim>\<open>versionData\<close>, its version with the new
  number and \<^verbatim>\<open>lastModifiedBy\<close> with the uploader; no other column of the row changes.
  Hence N successive calls on a record without versions return the numbers 1, ..., N in
  call order, each with the file descriptor it was given, and the Record carries the
  version and the file descriptor of the latest call.
\<close>

theorem createNewVersion_numbering:
  assumes "findRecord d recordId = Some record"
  shows "(\<exists>d' version r.
            createNewVersion d recordId versionData = Inr (d', version)
          \<and> rv_version version =
              (if versionsOf d recordId = [] then 1
               else Max (rv_version ` set (versionsOf d recordId)) + 1)
          \<and> rv_recordId version = recordId
          \<and> rv_fileName version = vd_fileName versionData
          \<and> rv_filePath version = vd_filePath versionData
          \<and> rv_fileSize version = vd_fileSize versionData
          \<and> rv_fileType version = vd_fileType versionData
          \<and> rv_fileHash version = vd_fileHash versionData
          \<and> versionsOf d' recordId = versionsOf d recordId @ [version]
          \<and> findRecord d' recordId = Some r
          \<and> r = record\<lparr>r_filePath := vd_filePath versionData,
                         r_fileName := vd_fileName versionData,
                         r_fileSize := vd_fileSize versionData,
                         r_fileType := vd_fileType versionData,
                         r_fileHash := vd_fileHash versionData,
                         r_version := rv_version version,
                         r_lastModifiedBy := vd_uploadedBy versionData\<rparr>
          \<and> r_version r = rv_version version
          \<and> r_fileName r = rv_fileName version
          \<and> r_filePath r = rv_filePath version
          \<and> r_fileSize r = rv_fileSize version
          \<and> r_fileType r = rv_fileType version
          \<and> r_fileHash r = rv_fileHash version)
       \<and> (versionsOf d recordId = [] \<longrightarrow>
           (\<exists>d' versions r.
              createNewVersions d recordId vds = Inr (d', versions)
            \<and> map rv_version versions = [1 ..< Suc (length vds)]
            \<and> map rv_fileName versions = map vd_fileName vds
            \<and> map rv_filePath versions = map vd_filePath vds
            \<and> map rv_fileSize versions = map vd_fileSize vds
            \<and> map rv_fileType versions = map vd_fileType vds
            \<and> map rv_fileHash versions = map vd_fileHash vds
            \<and> findRecord d' recordId = Some r
            \<and> (vds \<noteq> [] \<longrightarrow>
                  r_version r = length vds \<and> r_version r = rv_version (last versions)
                \<and> r_fileName r = vd_fileName (last vds)
                \<and> r_filePath r = vd_filePath (last vds)
                \<and> r_fileSize r = vd_fileSize (last vds)
                \<and> r_fileType r = vd_fileType (last vds)
                \<and> r_fileHash r = vd_fileHash (last vds))))"
proof (rule conjI)
  from createNewVersion_ok [OF assms, of versionData]
  obtain d' version where c: "createNewVersion d recordId versionData = Inr (d', version)"
    and ver: "rv_version version = Suc (maxVersion d recordId)"
    and vs: "versionsOf d' recordId = versionsOf d recordId @ [version]"
    and fr: "findRecord d' recordId =
             Some (record\<lparr>r_filePath := vd_filePath versionData,
                          r_fileName := vd_fileName versionData,
                          r_fileSize := vd_fileSize versionData,
                          r_fileType := vd_fileType versionData,
                          r_fileHash := vd_fileHash versionData,
                          r_version := rv_version version,
                          r_lastModifiedBy := vd_uploadedBy versionData\<rparr>)"
    and cols: "rv_fileName version = vd_fileName versionData"
       "rv_filePath version = vd_filePath versionData"
       "rv_fileSize version = vd_fileSize versionData"
       "rv_fileType version = vd_fileType versionData"
       "rv_fileHash version = vd_fileHash versionData"
    by blast
  have num: "rv_version version =
              (if versionsOf d recordId = [] then 1
               else Max (rv_version ` set (versionsOf d recordId)) + 1)"
    by (simp add: ver maxVersion_cases)
  from vs have "version \<in> set (versionsOf d' recordId)" by simp
  then have rid: "rv_recordId version = recordId" by (simp add: versionsOf_def)
  from c num rid vs fr cols
  show "\<exists>d' version r.
            createNewVersion d recordId versionData = Inr (d', version)
          \<and> rv_version version =
              (if versionsOf d recordId = [] then 1
               else Max (rv_version ` set (versionsOf d recordId)) + 1)
          \<and> rv_recordId version = recordId
          \<and> rv_fileName version = vd_fileName versionData
          \<and> rv_filePath version = vd_filePath versionData
          \<and> rv_fileSize version = vd_fileSize versionData
          \<and> rv_fileType version = vd_fileType versionData
          \<and> rv_fileHash version = vd_fileHash versionData
          \<and> versionsOf d' recordId = versionsOf d recordId @ [version]
          \<and> findRecord d' recordId = Some r
          \<and> r = record\<lparr>r_filePath := vd_filePath versionData,
                         r_fileName := vd_fileName versionData,
                         r_fileSize := vd_fileSize versionData,
                         r_fileType := vd_fileType versionData,
                         r_fileHash := vd_fileHash versionData,
                         r_version := rv_version version,
                         r_lastModifiedBy := vd_uploadedBy versionData\<rparr>
          \<and> r_version r = rv_version version
          \<and> r_fileName r = rv_fileName version
          \<and> r_filePath r = rv_filePath version
          \<and> r_fileSize r = rv_fileSize version
          \<and> r_fileType r = rv_fileType version
          \<and> r_fileHash r = rv_fileHash version"
    by simp
next
  show "versionsOf d recordId = [] \<longrightarrow>
           (\<exists>d' versions r.
              createNewVersions d recordId vds = Inr (d', versions)
            \<and> map rv_version versions = [1 ..< Suc (length vds)]
            \<and> map rv_fileName versions = map vd_fileName vds
            \<and> map rv_filePath versions = map vd_filePath vds
            \<and> map rv_fileSize versions = map vd_fileSize vds
            \<and> map rv_fileType versions = map vd_fileType vds
            \<and> map rv_fileHash versions = map vd_fileHash vds
            \<and> findRecord d' recordId = Some r
            \<and> (vds \<noteq> [] \<longrightarrow>
                  r_version r = length vds \<and> r_version r = rv_version (last versions)
                \<and> r_fileName r = vd_fileName (last vds)
                \<and> r_filePath r = vd_filePath (last vds)
                \<and> r_fileSize r = vd_fileSize (last vds)
                \<and> r_fileType r = vd_fileType (last vds)
                \<and> r_fileHash r = vd_fileHash (last vds)))"
  proof
    assume fresh: "versionsOf d recordId = []"
    then have m0: "maxVersion d recordId = 0" by (simp add: maxVersion_cases)
    from createNewVersions_ok [OF assms, of vds] m0
    obtain d' versions r where cs: "createNewVersions d recordId vds = Inr (d', versions)"
      and nums: "map rv_version versions = [1 ..< Suc (length vds)]"
      and fr: "findRecord d' recordId = Some r"
      and rv: "vds \<noteq> [] \<longrightarrow> r_version r = length vds"
      by auto
    from createNewVersions_columns [OF assms, of vds] cs fr
    have maps: "map rv_fileName versions = map vd_fileName vds"
      "map rv_filePath versions = map vd_filePath vds"
      "map rv_fileSize versions = map vd_fileSize vds"
      "map rv_fileType versions = map vd_fileType vds"
      "map rv_fileHash versions = map vd_fileHash vds"
      and lst: "vds \<noteq> [] \<longrightarrow>
               r_fileName r = vd_fileName (last vds)
             \<and> r_filePath r = vd_filePath (last vds)
             \<and> r_fileSize r = vd_fileSize (last vds)
             \<and> r_fileType r = vd_fileType (last vds)
             \<and> r_fileHash r = vd_fileHash (last vds)"
      by auto
    have "rv_version (last versions) = length vds" if ne: "vds \<noteq> []"
    proof -
      from nums have len: "length versions = length vds"
        by (metis length_map length_upt diff_Suc_1 Suc_eq_plus1 add_diff_cancel_left' plus_1_eq_Suc)
      with ne have vne: "versions \<noteq> []" by auto
      then have "rv_version (last versions) = last (map rv_version versions)"
        by (simp add: last_map)
      also have "\<dots> = last [1 ..< Suc (length vds)]" by (simp only: nums)
      also have "\<dots> = length vds"
      proof -
        from ne have "1 \<le> length vds" by (simp add: Suc_le_eq)
        then have "[1 ..< Suc (length vds)] = [1 ..< length vds] @ [length vds]" by simp
        then show ?thesis by simp
      qed
      finally show ?thesis .
    qed
    with cs nums fr rv maps lst
    show "\<exists>d' versions r.
              createNewVersions d recordId vds = Inr (d', versions)
            \<and> map rv_version versions = [1 ..< Suc (length vds)]
            \<and> map rv_fileName versions = map vd_fileName vds
            \<and> map rv_filePath versions = map vd_filePath vds
            \<and> map rv_fileSize versions = map vd_fileSize vds
            \<and> map rv_fileType versions = map vd_fileType vds
            \<and> map rv_fileHash versions = map vd_fileHash vds
            \<and> findRecord d' recordId = Some r
            \<and> (vds \<noteq> [] \<longrightarrow>
                  r_version r = length vds \<and> r_version r = rv_version (last versions)
                \<and> r_fileName r = vd_fileName (last vds)
                \<and> r_filePath r = vd_filePath (last vds)
                \<and> r_fileSize r = vd_fileSize (last vds)
                \<and> r_fileType r = vd_fileType (last vds)
                \<and> r_fileHash r = vd_fileHash (last vds))"
      by simp
  qed
qed

text \<open>
  C1, at concrete data: three calls on the example record, which has no RecordVersion
  and no file, return the versions 1, 2, 3 with the file names given, and the Record
  then carries version 3 and the file of the third call.
\<close>

theorem createNewVersion_numbering_witness:
  "findRecord example_db 1 = Some example_record
   \<and> r_fileName example_record = JNull
   \<and> (\<exists>d' versions r.
        createNewVersions example_db 1
          [example_versionData, example_versionData,
           example_versionData\<lparr>vd_fileName := JStr (js ''c.pdf'')\<rparr>] = Inr (d', versions)
      \<and> map rv_version versions = [1, 2, 3]
      \<and> map rv_fileName versions = [JStr (js ''a.pdf''), JStr (js ''a.pdf''), JStr (js ''c.pdf'')]
      \<and> findRecord d' 1 = Some r \<and> r_version r = 3
      \<and> r_fileName r = JStr (js ''c.pdf'')
      \<and> r_filePath r = JStr (js ''uploads/a.pdf''))"
proof -
  let ?vds = "[example_versionData, example_versionData,
           example_versionData\<lparr>vd_fileName := JStr (js ''c.pdf'')\<rparr>]"
  have up: "[1 ..< Suc 3] = [1, 2, 3]"
    by (simp add: upt_rec)
  have len: "length ?vds = 3" "?vds \<noteq> []"
    by simp_all
  have names: "map vd_fileName ?vds = [JStr (js ''a.pdf''), JStr (js ''a.pdf''), JStr (js ''c.pdf'')]"
    "vd_fileName (last ?vds) = JStr (js ''c.pdf'')"
    "vd_filePath (last ?vds) = JStr (js ''uploads/a.pdf'')"
    by (simp_all add: example_versionData_def)
  from createNewVersion_numbering
         [OF example_findRecord, of example_versionData ?vds]
       example_versionsOf len(2)
  have "\<exists>d' versions r.
        createNewVersions example_db 1 ?vds = Inr (d', versions)
      \<and> map rv_version versions = [1 ..< Suc (length ?vds)]
      \<and> map rv_fileName versions = map vd_fileName ?vds
      \<and> findRecord d' 1 = Some r
      \<and> r_version r = length ?vds
      \<and> r_fileName r = vd_fileName (last ?vds)
      \<and> r_filePath r = vd_filePath (last ?vds)"
    by blast
  moreover have "r_fileName example_record = JNull" by (simp add: example_record_def)
  ultimately show ?thesis
    unfolding len(1) up names using example_findRecord by blast
qed

text \<open>
  C2 as stated fails: \<^verbatim>\<open>rejectRecord\<close> checks the caller before the status. The example
  record is approved, and user 9 is neither an approver of its cabinet nor a
  \<^verbatim>\<open>member_full\<close> member: the call fails with status 403, not with the 400 of the
  status check.
\<close>

theorem rejectRecord_unauthorized_first:
  "r_status example_record \<noteq> PENDING
   \<and> findRecord example_db 1 = Some example_record
   \<and> rejectRecord example_db 1 9 None None (\<lambda>r. r)
       = Inl (AppError 403 (js ''User is not authorized to reject this record''))
   \<and> rejectRecord example_db 1 9 None None (\<lambda>r. r)
       \<noteq> Inl (AppError 400 (js ''Only pending records can be rejected''))"
proof -
  have c: "findCabinet example_db (r_cabinetId example_record) = Some example_cabinet"
    using example_findCabinet by (simp add: example_record_def)
  have "rejectRecord example_db 1 9 None None (\<lambda>r. r)
       = Inl (AppError 403 (js ''User is not authorized to reject this record''))"
    unfolding rejectRecord_found [OF example_findRecord c]
    by (simp add: example_cabinet_def example_db_def)
  then show ?thesis
    using example_findRecord by (simp add: example_record_def)
qed

text \<open>
  C2, amended. For a record that exists with its cabinet and whose status is not pending,
  \<^verbatim>\<open>rejectRecord\<close> fails and changes nothing: with status 400, "Only pending records can
  be rejected", for every caller who is an approver of the cabinet or holds the role
  \<^verbatim>\<open>member_full\<close> in it, and with status 403, "User is not authorized to reject this
  record", for every other caller.
\<close>

theorem rejectRecord_not_pending:
  assumes "findRecord d recordId = Some record"
    and "findCabinet d (r_cabinetId record) = Some cabinet"
    and "r_status record \<noteq> PENDING"
  shows "rejectRecord d recordId userId note comments data =
     (if (case c_approvers cabinet of None \<Rightarrow> False | Some approvers \<Rightarrow> userId \<in> set approvers)
         \<or> (\<exists>m \<in> set (cabinetMembers d).
               cm_cabinetId m = r_cabinetId record \<and> cm_userId m = userId
               \<and> cm_role m = js ''member_full'')
      then Inl (AppError 400 (js ''Only pending records can be rejected''))
      else Inl (AppError 403 (js ''User is not authorized to reject this record'')))"
proof -
  have "(find (\<lambda>m. cm_cabinetId m = r_cabinetId record \<and> cm_userId m = userId
                      \<and> cm_role m = js ''member_full'') (cabinetMembers d) = None)
        \<longleftrightarrow> \<not> (\<exists>m \<in> set (cabinetMembers d).
               cm_cabinetId m = r_cabinetId record \<and> cm_userId m = userId
               \<and> cm_role m = js ''member_full'')"
    by (auto simp: find_None_iff)
  then show ?thesis
    unfolding rejectRecord_found [OF assms(1,2)]
    by (simp add: assms(3))
qed

text \<open>
  C2, at concrete data: user 8, an approver, rejecting the approved example record gets
  status 400.
\<close>

theorem rejectRecord_not_pending_witness:
  "findRecord example_db 1 = Some example_record
   \<and> findCabinet example_db (r_cabinetId example_record) = Some example_cabinet
   \<and> r_status example_record \<noteq> PENDING
   \<and> rejectRecord example_db 1 8 None None (\<lambda>r. r)
       = Inl (AppError 400 (js ''Only pending records can be rejected''))"
proof -
  have c: "findCabinet example_db (r_cabinetId example_record) = Some example_cabinet"
    using example_findCabinet by (simp add: example_record_def)
  have s: "r_status example_record \<noteq> PENDING"
    by (simp add: example_record_def)
  from rejectRecord_not_pending [OF example_findRecord c s, of 8 None None "\<lambda>r. r"]
  have "rejectRecord example_db 1 8 None None (\<lambda>r. r)
       = Inl (AppError 400 (js ''Only pending records can be rejected''))"
    by (simp add: example_cabinet_def)
  with example_findRecord c s show ?thesis by simp
qed

text \<open>
  C3 as stated fails: \<^verbatim>\<open>createRecord\<close> writes no RecordVersion. The record created
  from the example submission exists with version 1 and has no RecordVersion row.
\<close>

theorem createRecord_without_version:
  "createRecord example_env example_db example_create =
     Inr (example_db\<lparr>records := [example_record, example_created], nextId := 101\<rparr>,
          example_created)
   \<and> versionsOf (example_db\<lparr>records := [example_record, example_created], nextId := 101\<rparr>)
        (r_id example_created) = []"
  using example_createRecord by (simp add: versionsOf_def example_db_def)

text \<open>
  C3, amended. \<^verbatim>\<open>createRecord\<close> stores the Record at version 1 and leaves the
  RecordVersion table as it was. \<^verbatim>\<open>deleteVersion\<close> never removes a record's last
  RecordVersion: on a record with exactly one RecordVersion it fails, deleting nothing,
  and the failure is status 400, "Cannot delete the only version of the record", once
  the record, its cabinet, the caller's permission and the version have been found;
  whenever it succeeds (primary keys being distinct) exactly one of the record's
  versions is gone and at least one remains.
\<close>

theorem deleteVersion_keeps_a_version:
  "(createRecord X d0 data = Inr (d', r) \<longrightarrow>
       recordVersions d' = recordVersions d0 \<and> r_version r = 1)
   \<and> (length (versionsOf d recordId) = 1 \<longrightarrow>
        (\<exists>e. deleteVersion d recordId versionId userId = Inl e)
      \<and> (\<forall>rec0 cabinet version.
            findRecord d recordId = Some rec0
          \<and> findCabinet d (r_cabinetId rec0) = Some cabinet
          \<and> (r_creatorId rec0 = userId \<or> c_createdById cabinet = userId)
          \<and> find (\<lambda>v. rv_id v = versionId \<and> rv_recordId v = recordId) (recordVersions d)
               = Some version
          \<longrightarrow> deleteVersion d recordId versionId userId
                = Inl (AppError 400 (js ''Cannot delete the only version of the record''))))
   \<and> (distinct (map rv_id (recordVersions d))
        \<and> deleteVersion d recordId versionId userId = Inr d2 \<longrightarrow>
          versionsOf d2 recordId \<noteq> []
        \<and> length (versionsOf d2 recordId) = length (versionsOf d recordId) - 1)"
proof (intro conjI impI allI)
  assume "createRecord X d0 data = Inr (d', r)"
  from createRecord_Inr [OF this]
  show "recordVersions d' = recordVersions d0" and "r_version r = 1" by simp_all
next
  assume "length (versionsOf d recordId) = 1"
  then show "\<exists>e. deleteVersion d recordId versionId userId = Inl e"
    by (rule deleteVersion_only_version)
next
  fix rec0 cabinet version
  assume "length (versionsOf d recordId) = 1"
    and "findRecord d recordId = Some rec0
          \<and> findCabinet d (r_cabinetId rec0) = Some cabinet
          \<and> (r_creatorId rec0 = userId \<or> c_createdById cabinet = userId)
          \<and> find (\<lambda>v. rv_id v = versionId \<and> rv_recordId v = recordId) (recordVersions d)
               = Some version"
  then show "deleteVersion d recordId versionId userId
                = Inl (AppError 400 (js ''Cannot delete the only version of the record''))"
    using deleteVersion_only_version_error [of d recordId rec0 cabinet userId versionId version]
    by blast
next
  assume a: "distinct (map rv_id (recordVersions d))
        \<and> deleteVersion d recordId versionId userId = Inr d2"
  then have "distinct (map rv_id (recordVersions d))"
    and "deleteVersion d recordId versionId userId = Inr d2" by simp_all
  from deleteVersion_leaves_one [OF this]
  show "versionsOf d2 recordId \<noteq> []"
    and "length (versionsOf d2 recordId) = length (versionsOf d recordId) - 1" by simp_all
qed

text \<open>
  C3, at concrete data: deleting the only version of the example record is refused with
  status 400; deleting version 2 of two leaves version 1; creating a record adds no
  RecordVersion.
\<close>

theorem deleteVersion_keeps_a_version_witness:
  "length (versionsOf (example_db\<lparr>recordVersions := [example_version 1]\<rparr>) 1) = 1
   \<and> deleteVersion (example_db\<lparr>recordVersions := [example_version 1]\<rparr>) 1 201 7
       = Inl (AppError 400 (js ''Cannot delete the only version of the record''))
   \<and> distinct (map rv_id (recordVersions
         (example_db\<lparr>recordVersions := [example_version 1, example_version 2]\<rparr>)))
   \<and> deleteVersion (example_db\<lparr>recordVersions := [example_version 1, example_version 2]\<rparr>) 1 202 7
       = Inr (example_db\<lparr>recordVersions := [example_version 1]\<rparr>)
   \<and> versionsOf (example_db\<lparr>recordVersions := [example_version 1]\<rparr>) 1 \<noteq> []
   \<and> createRecord example_env example_db example_create =
       Inr (example_db\<lparr>records := [example_record, example_created], nextId := 101\<rparr>,
            example_created)
   \<and> recordVersions (example_db\<lparr>records := [example_record, example_created], nextId := 101\<rparr>)
       = recordVersions example_db"
proof -
  have one: "length (versionsOf (example_db\<lparr>recordVersions := [example_version 1]\<rparr>) 1) = 1"
    by (simp add: versionsOf_def example_version_def)
  have dist: "distinct (map rv_id (recordVersions
         (example_db\<lparr>recordVersions := [example_version 1, example_version 2]\<rparr>)))"
    by (simp add: example_version_def)
  from deleteVersion_keeps_a_version
         [of example_env example_db example_create
             "example_db\<lparr>records := [example_record, example_created], nextId := 101\<rparr>"
             example_created
             "example_db\<lparr>recordVersions := [example_version 1, example_version 2]\<rparr>"
             1 202 7 "example_db\<lparr>recordVersions := [example_version 1]\<rparr>"]
       example_createRecord dist example_deleteVersion_two
  have a: "recordVersions (example_db\<lparr>records := [example_record, example_created], nextId := 101\<rparr>)
            = recordVersions example_db"
    and b: "versionsOf (example_db\<lparr>recordVersions := [example_version 1]\<rparr>) 1 \<noteq> []"
    by blast+
  from deleteVersion_keeps_a_version
         [of example_env example_db example_create
             "example_db\<lparr>records := [example_record, example_created], nextId := 101\<rparr>"
             example_created
             "example_db\<lparr>recordVersions := [example_version 1]\<rparr>"
             1 201 7] one
  have "\<exists>e. deleteVersion (example_db\<lparr>recordVersions := [example_version 1]\<rparr>) 1 201 7 = Inl e"
    by blast
  with example_deleteVersion_one one dist example_deleteVersion_two example_createRecord a b
  show ?thesis by blast
qed




text \<open>
  C5 as stated fails: \<^verbatim>\<open>validateCustomFields\<close> does not pass Attachment fields to
  \<^verbatim>\<open>validateFieldValue\<close>. A mandatory Attachment field given an object with a
  \<^verbatim>\<open>fileName\<close> and no \<^verbatim>\<open>filePath\<close> is accepted and stored as submitted.
\<close>

theorem attachment_not_checked:
  "validateCustomFields example_builtins
       [3 \<mapsto> JObj [(js ''fileName'', JStr (js ''a.pdf''))]]
       [\<lparr>cf_id = 3, cf_name = js ''Scan'', cf_type = js ''Attachment'', isMandatory = True,
          characterLimit = None\<rparr>]
     = Inr [(3, \<lparr>fieldId = 3, cfv_type = js ''Attachment'',
                  cfv_value = JObj [(js ''fileName'', JStr (js ''a.pdf''))]\<rparr>)]
   \<and> getProp (JObj [(js ''fileName'', JStr (js ''a.pdf''))]) (js ''filePath'') = JUndefined"
  by (simp add: validateCustomFields_def validateField_def submittedField_def hasValidValue_def)

text \<open>
  C5, amended. For an Attachment field, one pass of the validation loop never fails with
  the missing-file-information error: when the field is mandatory it fails with
  "Field '...' is mandatory" unless the submitted value is truthy and either has a truthy
  \<^verbatim>\<open>value\<close> property with at least one key or is an object with a truthy
  \<^verbatim>\<open>filePath\<close> or \<^verbatim>\<open>fileName\<close>; otherwise a truthy submitted value is stored
  unchanged and a falsy one is left out. The check for both \<^verbatim>\<open>fileName\<close> and
  \<^verbatim>\<open>filePath\<close> belongs to \<^verbatim>\<open>validateFieldValue\<close>, which fails with that error exactly
  on a truthy object value lacking a truthy \<^verbatim>\<open>fileName\<close> or \<^verbatim>\<open>filePath\<close>.
\<close>

theorem attachment_field_processing:
  assumes "cf_type field = js ''Attachment''"
  shows "validateField E submittedFields field validatedFields =
          (if isMandatory field \<and> \<not> hasValidValue (submittedField submittedFields (cf_id field))
             then Inl (mandatoryError field)
           else if truthy (submittedField submittedFields (cf_id field))
             then Inr (AList.update (cf_id field)
                    \<lparr>fieldId = cf_id field, cfv_type = js ''Attachment'',
                     cfv_value = submittedField submittedFields (cf_id field)\<rparr> validatedFields)
           else Inr validatedFields)
       \<and> validateField E submittedFields field validatedFields
            \<noteq> Inl (fieldError field (js '' is missing required file information''))
       \<and> (validateFieldValue E v field
            = Inl (fieldError field (js '' is missing required file information''))
          \<longleftrightarrow> v \<noteq> JUndefined \<and> v \<noteq> JNull
              \<and> truthy (actualValueOf v) \<and> typeof_object (actualValueOf v)
              \<and> (\<not> truthy (getProp (actualValueOf v) (js ''fileName''))
                   \<or> \<not> truthy (getProp (actualValueOf v) (js ''filePath''))))"
proof -
  have body: "validateField E submittedFields field validatedFields =
          (if isMandatory field \<and> \<not> hasValidValue (submittedField submittedFields (cf_id field))
             then Inl (mandatoryError field)
           else if truthy (submittedField submittedFields (cf_id field))
             then Inr (AList.update (cf_id field)
                    \<lparr>fieldId = cf_id field, cfv_type = js ''Attachment'',
                     cfv_value = submittedField submittedFields (cf_id field)\<rparr> validatedFields)
           else Inr validatedFields)"
    using assms by (simp add: validateField_def Let_def)
  have "mandatoryError field \<noteq> fieldError field (js '' is missing required file information'')"
    by (simp add: mandatoryError_def)
  with body have never: "validateField E submittedFields field validatedFields
            \<noteq> Inl (fieldError field (js '' is missing required file information''))"
    by (simp split: if_splits)
  have vfv: "validateFieldValue E v field
            = Inl (fieldError field (js '' is missing required file information''))
          \<longleftrightarrow> v \<noteq> JUndefined \<and> v \<noteq> JNull
              \<and> truthy (actualValueOf v) \<and> typeof_object (actualValueOf v)
              \<and> (\<not> truthy (getProp (actualValueOf v) (js ''fileName''))
                   \<or> \<not> truthy (getProp (actualValueOf v) (js ''filePath'')))"
    using assms by (auto simp: validateFieldValue_def Let_def)
  from body never vfv show ?thesis by blast
qed

text \<open>
  C5, at concrete data: the object with only a \<^verbatim>\<open>fileName\<close> is stored by the loop
  and rejected by \<^verbatim>\<open>validateFieldValue\<close>.
\<close>

theorem attachment_field_processing_witness:
  "cf_type \<lparr>cf_id = 3, cf_name = js ''Scan'', cf_type = js ''Attachment'', isMandatory = True,
          characterLimit = None\<rparr> = js ''Attachment''
   \<and> validateField example_builtins [3 \<mapsto> JObj [(js ''fileName'', JStr (js ''a.pdf''))]]
        \<lparr>cf_id = 3, cf_name = js ''Scan'', cf_type = js ''Attachment'', isMandatory = True,
          characterLimit = None\<rparr> []
      = Inr [(3, \<lparr>fieldId = 3, cfv_type = js ''Attachment'',
                   cfv_value = JObj [(js ''fileName'', JStr (js ''a.pdf''))]\<rparr>)]
   \<and> validateFieldValue example_builtins (JObj [(js ''fileName'', JStr (js ''a.pdf''))])
        \<lparr>cf_id = 3, cf_name = js ''Scan'', cf_type = js ''Attachment'', isMandatory = True,
          characterLimit = None\<rparr>
      = Inl (fieldError \<lparr>cf_id = 3, cf_name = js ''Scan'', cf_type = js ''Attachment'',
               isMandatory = True, characterLimit = None\<rparr>
             (js '' is missing required file information''))"
proof -
  let ?f = "\<lparr>cf_id = 3, cf_name = js ''Scan'', cf_type = js ''Attachment'', isMandatory = True,
          characterLimit = None\<rparr>"
  let ?v = "JObj [(js ''fileName'', JStr (js ''a.pdf''))]"
  have t: "cf_type ?f = js ''Attachment''" by simp
  have sf: "submittedField [3 \<mapsto> ?v] (cf_id ?f) = ?v" by (simp add: submittedField_def)
  have hv: "hasValidValue ?v" by (simp add: hasValidValue_def)
  have av: "actualValueOf ?v = ?v" by (simp add: actualValueOf_def)
  from attachment_field_processing [OF t, of example_builtins "[3 \<mapsto> ?v]" "[]" ?v]
  have a: "validateField example_builtins [3 \<mapsto> ?v] ?f [] =
            Inr (AList.update (cf_id ?f)
                    \<lparr>fieldId = cf_id ?f, cfv_type = js ''Attachment'', cfv_value = ?v\<rparr> [])"
    and b: "validateFieldValue example_builtins ?v ?f
              = Inl (fieldError ?f (js '' is missing required file information''))"
    unfolding sf av using hv by simp_all
  from a have "validateField example_builtins [3 \<mapsto> ?v] ?f [] =
            Inr [(3, \<lparr>fieldId = 3, cfv_type = js ''Attachment'', cfv_value = ?v\<rparr>)]"
    by simp
  with t b show ?thesis by blast
qed

text \<open>
  C6. \<^verbatim>\<open>createRecord\<close> fails with status 400, "Record title is required", for
  every title made of white space only (the empty title included). When it succeeds, the
  stored Record's title is the submitted title without its leading and trailing white
  space: it is not empty, begins and ends with a character that is not white space, and
  the submitted title is it between two runs of white space.
\<close>

theorem createRecord_title:
  "((\<forall>c \<in> set (crd_title data). isWhiteSpace c) \<longrightarrow>
       createRecord X d data = Inl (AppError 400 (js ''Record title is required'')))
   \<and> (createRecord X d data = Inr (d', r) \<longrightarrow>
        r \<in> set (records d')
      \<and> r_title r = trim (crd_title data)
      \<and> r_title r \<noteq> []
      \<and> \<not> isWhiteSpace (hd (r_title r)) \<and> \<not> isWhiteSpace (last (r_title r))
      \<and> (\<exists>pre post. crd_title data = pre @ r_title r @ post
            \<and> (\<forall>c \<in> set pre. isWhiteSpace c) \<and> (\<forall>c \<in> set post. isWhiteSpace c)))"
proof (intro conjI impI)
  assume "\<forall>c \<in> set (crd_title data). isWhiteSpace c"
  then have "trim (crd_title data) = []" by (rule trim_all_whitespace)
  then show "createRecord X d data = Inl (AppError 400 (js ''Record title is required''))"
    by (simp add: createRecord_def)
next
  assume c: "createRecord X d data = Inr (d', r)"
  from createRecord_Inr [OF c] have t: "r_title r = trim (crd_title data)"
    and ne: "trim (crd_title data) \<noteq> []" and rs: "records d' = records d @ [r]"
    by simp_all
  from rs show "r \<in> set (records d')" by simp
  from t show "r_title r = trim (crd_title data)" .
  from t ne show "r_title r \<noteq> []" by simp
  from trim_ends [OF ne] t show "\<not> isWhiteSpace (hd (r_title r))" by simp
  from trim_ends [OF ne] t show "\<not> isWhiteSpace (last (r_title r))" by simp
  from trim_decomposition [of "crd_title data"] t
  show "\<exists>pre post. crd_title data = pre @ r_title r @ post
            \<and> (\<forall>c \<in> set pre. isWhiteSpace c) \<and> (\<forall>c \<in> set post. isWhiteSpace c)"
    by simp
qed

text \<open>
  C6, at concrete data: a title of a space, a tab and an ideographic space is refused;
  the title "  Foo  " is stored as "Foo".
\<close>

theorem createRecord_title_witness:
  "isWhiteSpace 0x20 \<and> isWhiteSpace 0x9 \<and> isWhiteSpace 0x3000
   \<and> createRecord example_env example_db (example_create\<lparr>crd_title := [0x20, 0x9, 0x3000]\<rparr>)
       = Inl (AppError 400 (js ''Record title is required''))
   \<and> crd_title example_create = js ''  Foo  ''
   \<and> createRecord example_env example_db example_create =
       Inr (example_db\<lparr>records := [example_record, example_created], nextId := 101\<rparr>,
            example_created)
   \<and> r_title example_created = js ''Foo''
   \<and> example_created \<in> set (records
        (example_db\<lparr>records := [example_record, example_created], nextId := 101\<rparr>))"
proof -
  have ws: "\<forall>c \<in> set (crd_title (example_create\<lparr>crd_title := [0x20, 0x9, 0x3000]\<rparr>)). isWhiteSpace c"
    by (simp add: isWhiteSpace_def)
  from createRecord_title
         [of "example_create\<lparr>crd_title := [0x20, 0x9, 0x3000]\<rparr>" example_env example_db] ws
  have blank: "createRecord example_env example_db (example_create\<lparr>crd_title := [0x20, 0x9, 0x3000]\<rparr>)
       = Inl (AppError 400 (js ''Record title is required''))"
    by blast
  from createRecord_title
         [of example_create example_env example_db
             "example_db\<lparr>records := [example_record, example_created], nextId := 101\<rparr>"
             example_created]
       example_createRecord
  have stored: "example_created \<in> set (records
        (example_db\<lparr>records := [example_record, example_created], nextId := 101\<rparr>))"
    and t: "r_title example_created = trim (crd_title example_create)"
    by blast+
  have "crd_title example_create = js ''  Foo  ''" by (simp add: example_create_def)
  moreover have "r_title example_created = js ''Foo''" by (simp add: example_created_def)
  moreover have "isWhiteSpace 0x20 \<and> isWhiteSpace 0x9 \<and> isWhiteSpace 0x3000"
    by (simp add: isWhiteSpace_def)
  ultimately show ?thesis using blank stored example_createRecord by blast
qed

text \<open>
  C7. When \<^verbatim>\<open>validateCustomFields\<close> succeeds, every key of its result is the id of a
  schema field, no key that is absent from the submission occurs in it (so an optional
  field that was not submitted is left out, not stored as null), and every entry of
  type Attachment holds the truthy value submitted under its key.
\<close>

theorem validateCustomFields_output_keys:
  assumes "validateCustomFields E submittedFields cabinetFields = Inr out"
  shows "fst ` set out \<subseteq> cf_id ` set cabinetFields
       \<and> (\<forall>k. submittedFields k = None \<longrightarrow> k \<notin> fst ` set out)
       \<and> (\<forall>(k, v) \<in> set out. cfv_type v = js ''Attachment'' \<longrightarrow>
             truthy (submittedField submittedFields k) \<and> cfv_value v = submittedField submittedFields k)"
proof -
  from assms have l: "validateLoop E submittedFields cabinetFields [] = Inr out"
    by (simp add: validateCustomFields_def)
  have "att_inv submittedFields []" by (simp add: att_inv_def)
  with validateLoop_props(3) [OF l] have "att_inv submittedFields out" .
  moreover from validateLoop_props(1) [OF l] have "fst ` set out \<subseteq> cf_id ` set cabinetFields"
    by simp
  moreover have "\<forall>k. submittedFields k = None \<longrightarrow> k \<notin> fst ` set out"
    using validateLoop_props(2) [OF l] by simp
  ultimately show ?thesis unfolding att_inv_def by blast
qed

text \<open>
  C7, at concrete data: of the submission with keys 1 and 9 against the schema with
  fields 1, 2, 3, only key 1 is in the result.
\<close>

theorem validateCustomFields_output_keys_witness:
  "validateCustomFields example_builtins example_submitted example_schema =
     Inr [(1, \<lparr>fieldId = 1, cfv_type = js ''Text Only'', cfv_value = JStr (js ''Hello'')\<rparr>)]
   \<and> example_submitted 9 = Some (JStr (js ''dropped''))
   \<and> example_submitted 2 = None
   \<and> fst ` set [(1 :: nat, \<lparr>fieldId = 1, cfv_type = js ''Text Only'', cfv_value = JStr (js ''Hello'')\<rparr>)]
        \<subseteq> cf_id ` set example_schema"
  using validateCustomFields_output_keys [OF example_validation] example_validation
  by (simp add: example_submitted_def)

text \<open>
  C8. \<^verbatim>\<open>processPdfFile\<close> always returns: the extraction's result when it has one,
  and otherwise the fixed fallback with the original file name and the size in
  kilobytes, the byte size divided by 1024 and rounded half up. A file of 2048 bytes
  gives "2 KB".
\<close>

theorem processPdfFile_never_raises:
  "processPdfFile X file =
     Inr (case tryExtract X file of
            Some r \<Rightarrow> r
          | None \<Rightarrow>
             \<lparr>extractedText = js ''PDF text extraction failed'',
              extractedFields =
                [(js ''Document Name'', originalname file),
                 (js ''File Size'', show_nat ((file_size file + 512) div 1024) @ js '' KB'')],
              pageCount = 1\<rparr>)
   \<and> (tryExtract X file = None \<and> file_size file = 2048 \<longrightarrow>
        (\<exists>r. processPdfFile X file = Inr r
           \<and> map snd (extractedFields r) = [originalname file, js ''2 KB'']))"
proof -
  have eq: "processPdfFile X file =
     Inr (case tryExtract X file of
            Some r \<Rightarrow> r
          | None \<Rightarrow>
             \<lparr>extractedText = js ''PDF text extraction failed'',
              extractedFields =
                [(js ''Document Name'', originalname file),
                 (js ''File Size'', show_nat ((file_size file + 512) div 1024) @ js '' KB'')],
              pageCount = 1\<rparr>)"
    by (simp add: processPdfFile_def extractPdfContent_def fallbackPdfData_def mathRound_kb
             split: option.splits)
  have kb: "show_nat ((2048 + 512) div 1024) @ js '' KB'' = js ''2 KB''"
    by (simp add: show_nat.simps js_def)
  from eq kb show ?thesis by simp
qed

text \<open>
  C8, at concrete data: a 2048-byte file whose extraction throws.
\<close>

theorem processPdfFile_never_raises_witness:
  "tryExtract example_env example_file = None \<and> file_size example_file = 2048
   \<and> processPdfFile example_env example_file =
       Inr \<lparr>extractedText = js ''PDF text extraction failed'',
            extractedFields = [(js ''Document Name'', js ''scan.pdf''), (js ''File Size'', js ''2 KB'')],
            pageCount = 1\<rparr>"
proof -
  have a: "tryExtract example_env example_file = None"
    by (simp add: example_env_def)
  have b: "file_size example_file = 2048" "originalname example_file = js ''scan.pdf''"
    by (simp_all add: example_file_def)
  have kb: "show_nat ((2048 + 512) div 1024) @ js '' KB'' = js ''2 KB''"
    by (simp add: show_nat.simps js_def)
  from processPdfFile_never_raises [of example_env example_file] a b kb
  show ?thesis by simp
qed

text \<open>
  C10. For a mandatory field that is not an Attachment, the loop fails with
  "Field '...' is mandatory" exactly when the submitted value is undefined, null or the
  empty string; every other value goes on to the validation of its type. So
  \<^verbatim>\<open>false\<close> for a mandatory Yes/No field and 0 for a mandatory Number Only field are
  accepted and stored.
\<close>

theorem mandatory_presence_check:
  assumes "isMandatory field" and "cf_type field \<noteq> js ''Attachment''"
  shows "(validateField E submittedFields field validatedFields = Inl (mandatoryError field)
            \<longleftrightarrow> submittedField submittedFields (cf_id field) \<in> {JUndefined, JNull, JStr []})
       \<and> (submittedField submittedFields (cf_id field) \<notin> {JUndefined, JNull, JStr []} \<longrightarrow>
            validateField E submittedFields field validatedFields =
              (case validateFieldValue E (submittedField submittedFields (cf_id field)) field of
                 Inl e \<Rightarrow> Inl e
               | Inr v \<Rightarrow> Inr (AList.update (cf_id field)
                   \<lparr>fieldId = cf_id field, cfv_type = cf_type field, cfv_value = v\<rparr> validatedFields)))
       \<and> (cf_type field = js ''Yes/No'' \<and> submittedFields (cf_id field) = Some (JBool False) \<longrightarrow>
            validateField E submittedFields field validatedFields =
              Inr (AList.update (cf_id field)
                   \<lparr>fieldId = cf_id field, cfv_type = cf_type field, cfv_value = JBool False\<rparr>
                   validatedFields))
       \<and> (cf_type field = js ''Number Only'' \<and> submittedFields (cf_id field) = Some (JNum (Fin 0)) \<longrightarrow>
            validateField E submittedFields field validatedFields =
              Inr (AList.update (cf_id field)
                   \<lparr>fieldId = cf_id field, cfv_type = cf_type field, cfv_value = JNum (Fin 0)\<rparr>
                   validatedFields))"
proof -
  let ?sf = "submittedField submittedFields (cf_id field)"
  have pass: "validateField E submittedFields field validatedFields =
              (case validateFieldValue E ?sf field of
                 Inl e \<Rightarrow> Inl e
               | Inr v \<Rightarrow> Inr (AList.update (cf_id field)
                   \<lparr>fieldId = cf_id field, cfv_type = cf_type field, cfv_value = v\<rparr> validatedFields))"
    if "?sf \<notin> {JUndefined, JNull, JStr []}"
    using that assms by (simp add: validateField_def hasValue_def Let_def)
  have absent: "validateField E submittedFields field validatedFields = Inl (mandatoryError field)"
    if "?sf \<in> {JUndefined, JNull, JStr []}"
    using that assms by (auto simp: validateField_def hasValue_def Let_def)
  have notm: "validateField E submittedFields field validatedFields \<noteq> Inl (mandatoryError field)"
    if "?sf \<notin> {JUndefined, JNull, JStr []}"
    using pass [OF that] validateFieldValue_not_mandatory [of E ?sf field]
    by (auto split: sum.splits)
  have yn: "validateField E submittedFields field validatedFields =
              Inr (AList.update (cf_id field)
                   \<lparr>fieldId = cf_id field, cfv_type = cf_type field, cfv_value = JBool False\<rparr>
                   validatedFields)"
    if "cf_type field = js ''Yes/No''" "submittedFields (cf_id field) = Some (JBool False)"
  proof -
    from that(2) have sf: "?sf = JBool False" by (simp add: submittedField_def)
    then have "?sf \<notin> {JUndefined, JNull, JStr []}" by simp
    from pass [OF this] show ?thesis
      by (simp add: sf validateFieldValue_def actualValueOf_def that(1))
  qed
  have num: "validateField E submittedFields field validatedFields =
              Inr (AList.update (cf_id field)
                   \<lparr>fieldId = cf_id field, cfv_type = cf_type field, cfv_value = JNum (Fin 0)\<rparr>
                   validatedFields)"
    if "cf_type field = js ''Number Only''" "submittedFields (cf_id field) = Some (JNum (Fin 0))"
  proof -
    from that(2) have sf: "?sf = JNum (Fin 0)" by (simp add: submittedField_def)
    then have "?sf \<notin> {JUndefined, JNull, JStr []}" by simp
    from pass [OF this] show ?thesis
      by (simp add: sf validateFieldValue_def actualValueOf_def that(1))
  qed
  from pass absent notm yn num show ?thesis by blast
qed

text \<open>
  C10, at concrete data: \<^verbatim>\<open>false\<close> for a mandatory Yes/No field is stored; no
  value for it is refused.
\<close>

theorem mandatory_presence_check_witness:
  "isMandatory \<lparr>cf_id = 2, cf_name = js ''Paid'', cf_type = js ''Yes/No'', isMandatory = True,
          characterLimit = None\<rparr>
   \<and> validateField example_builtins [2 \<mapsto> JBool False]
        \<lparr>cf_id = 2, cf_name = js ''Paid'', cf_type = js ''Yes/No'', isMandatory = True,
          characterLimit = None\<rparr> []
      = Inr [(2, \<lparr>fieldId = 2, cfv_type = js ''Yes/No'', cfv_value = JBool False\<rparr>)]
   \<and> validateField example_builtins Map.empty
        \<lparr>cf_id = 2, cf_name = js ''Paid'', cf_type = js ''Yes/No'', isMandatory = True,
          characterLimit = None\<rparr> []
      = Inl (mandatoryError \<lparr>cf_id = 2, cf_name = js ''Paid'', cf_type = js ''Yes/No'',
          isMandatory = True, characterLimit = None\<rparr>)"
proof -
  let ?f = "\<lparr>cf_id = 2, cf_name = js ''Paid'', cf_type = js ''Yes/No'', isMandatory = True,
          characterLimit = None\<rparr>"
  have m: "isMandatory ?f" and t: "cf_type ?f \<noteq> js ''Attachment''" by simp_all
  from mandatory_presence_check [OF m t, of example_builtins "[2 \<mapsto> JBool False]" "[]"]
  have "validateField example_builtins [2 \<mapsto> JBool False] ?f []
      = Inr (AList.update (cf_id ?f)
               \<lparr>fieldId = cf_id ?f, cfv_type = cf_type ?f, cfv_value = JBool False\<rparr> [])"
    by simp
  then have a: "validateField example_builtins [2 \<mapsto> JBool False] ?f []
      = Inr [(2, \<lparr>fieldId = 2, cfv_type = js ''Yes/No'', cfv_value = JBool False\<rparr>)]"
    by simp
  from mandatory_presence_check [OF m t, of example_builtins Map.empty "[]"]
  have b: "validateField example_builtins Map.empty ?f [] = Inl (mandatoryError ?f)"
    by (simp add: submittedField_def)
  from m a b show ?thesis by blast
qed

end
